theory Spec2Isabelle
  imports Main
begin

section \<open>Data model (supabase/migrations)\<close>

text \<open>
  Identifiers are UUIDs; the client interpolates them into storage paths, so they are
  kept as text. No UUID is the name of a property that a JavaScript object inherits. Instants (TIMESTAMPTZ, and the ISO strings the client sends) are
  natural numbers. DECIMAL(10, 2) amounts are integers counting hundredths.
\<close>

type_synonym uuid = string
type_synonym timestamptz = nat
type_synonym decimal = int

text \<open>
  \<^verbatim>\<open>CREATE TYPE public.app_role AS ENUM ('citizen', 'officer', 'admin')\<close>,
  \<^verbatim>\<open>CREATE TYPE public.application_status AS ENUM ('pending', 'under_review',
  'approved', 'rejected', 'additional_info_required')\<close> and
  \<^verbatim>\<open>CREATE TYPE public.payment_status AS ENUM ('pending', 'completed', 'failed',
  'refunded')\<close>.
\<close>

datatype app_role = Citizen | Officer | Admin

datatype application_status =
  Pending | Under_review | Approved | Rejected | Additional_info_required

datatype payment_status =
  Payment_pending | Payment_completed | Payment_failed | Payment_refunded

text \<open>
  The client sends enum values as text; the database casts them and refuses text that
  is no label of the enum.
\<close>

definition application_status_of :: "string \<Rightarrow> application_status option" where
  "application_status_of s =
     (if s = ''pending'' then Some Pending
      else if s = ''under_review'' then Some Under_review
      else if s = ''approved'' then Some Approved
      else if s = ''rejected'' then Some Rejected
      else if s = ''additional_info_required'' then Some Additional_info_required
      else None)"

definition payment_status_of :: "string \<Rightarrow> payment_status option" where
  "payment_status_of s =
     (if s = ''pending'' then Some Payment_pending
      else if s = ''completed'' then Some Payment_completed
      else if s = ''failed'' then Some Payment_failed
      else if s = ''refunded'' then Some Payment_refunded
      else None)"

text \<open>
  A row of \<^verbatim>\<open>auth.users\<close> as the signup trigger reads it: \<^verbatim>\<open>NEW.id\<close>,
  \<^verbatim>\<open>NEW.email\<close> and \<^verbatim>\<open>NEW.raw_user_meta_data->>'full_name'\<close>.
\<close>

record auth_user =
  au_id :: uuid
  au_email :: "string option"
  au_full_name :: "string option"

record profile =
  p_id :: uuid
  p_email :: string
  p_phone :: "string option"
  p_full_name :: string
  p_created_at :: timestamptz
  p_updated_at :: timestamptz

record user_role =
  ur_id :: uuid
  ur_user_id :: uuid
  ur_role :: app_role
  ur_created_at :: timestamptz

record service =
  s_id :: uuid
  s_department_id :: uuid
  s_name :: string
  s_description :: "string option"
  s_fee :: decimal
  s_required_documents :: "string list"
  s_processing_time_days :: int
  s_is_active :: bool
  s_created_at :: timestamptz

record application =
  a_id :: uuid
  a_citizen_id :: uuid
  a_service_id :: uuid
  a_officer_id :: "uuid option"
  a_status :: application_status
  a_remarks :: "string option"
  a_applied_on :: timestamptz
  a_completed_on :: "timestamptz option"
  a_created_at :: timestamptz
  a_updated_at :: timestamptz

record document =
  d_id :: uuid
  d_application_id :: uuid
  d_file_name :: string
  d_file_url :: string
  d_doc_type :: string
  d_uploaded_at :: timestamptz

record payment =
  pay_id :: uuid
  pay_application_id :: uuid
  pay_transaction_id :: "string option"
  pay_amount :: decimal
  pay_status :: payment_status
  pay_payment_method :: "string option"
  pay_paid_at :: "timestamptz option"
  pay_created_at :: timestamptz

text \<open>A browser \<^verbatim>\<open>File\<close>: its name and its bytes.\<close>

record js_file =
  f_name :: string
  f_bytes :: "nat list"

record storage_object =
  o_bucket_id :: string
  o_name :: string
  o_file :: js_file

text \<open>The tables, each in insertion order.\<close>

record database =
  users :: "auth_user list"
  profiles :: "profile list"
  user_roles :: "user_role list"
  services :: "service list"
  applications :: "application list"
  documents :: "document list"
  payments :: "payment list"
  objects :: "storage_object list"

text \<open>What a request can come back with instead of a result.\<close>

datatype error =
  Js_error string
  | Network_error
  | Invalid_enum_value
  | Rls_violation
  | Unique_violation
  | Foreign_key_violation
  | Not_null_violation
  | Duplicate_object

section \<open>Row-level security\<close>

text \<open>
  \<^verbatim>\<open>auth.uid()\<close> is the caller: \<open>None\<close> for an anonymous request, and then every
  comparison with it is NULL, which a policy treats as false.
  \<^verbatim>\<open>
  CREATE FUNCTION public.has_role(_user_id UUID, _role public.app_role) ... AS $$
    SELECT EXISTS (SELECT 1 FROM public.user_roles
                   WHERE user_id = _user_id AND role = _role) $$;
  \<close>
  The function is SECURITY DEFINER: it reads the whole table.
\<close>

definition has_role :: "database \<Rightarrow> uuid option \<Rightarrow> app_role \<Rightarrow> bool" where
  "has_role d uid r =
     (case uid of
        None \<Rightarrow> False
      | Some u \<Rightarrow> list_ex (\<lambda>x. ur_user_id x = u \<and> ur_role x = r) (user_roles d))"

text \<open>
  The policies of \<^verbatim>\<open>public.applications\<close>, each under its own name. Policies of one
  command are permissive: a row passes when one of them holds.
\<close>

definition citizens_can_view_their_own_applications :: "uuid option \<Rightarrow> application \<Rightarrow> bool" where
  "citizens_can_view_their_own_applications uid a = (uid = Some (a_citizen_id a))"

definition citizens_can_create_applications :: "uuid option \<Rightarrow> application \<Rightarrow> bool" where
  "citizens_can_create_applications uid a = (uid = Some (a_citizen_id a))"

definition officers_can_view_all_applications :: "database \<Rightarrow> uuid option \<Rightarrow> bool" where
  "officers_can_view_all_applications d uid = (has_role d uid Officer \<or> has_role d uid Admin)"

definition officers_can_update_applications :: "database \<Rightarrow> uuid option \<Rightarrow> bool" where
  "officers_can_update_applications d uid = (has_role d uid Officer \<or> has_role d uid Admin)"

definition applications_select_policy :: "database \<Rightarrow> uuid option \<Rightarrow> application \<Rightarrow> bool" where
  "applications_select_policy d uid a =
     (citizens_can_view_their_own_applications uid a \<or> officers_can_view_all_applications d uid)"

text \<open>A read of \<^verbatim>\<open>applications\<close>: the rows the SELECT policies let through.\<close>

definition select_applications :: "database \<Rightarrow> uuid option \<Rightarrow> application list" where
  "select_applications d uid = filter (applications_select_policy d uid) (applications d)"

text \<open>
  \<^verbatim>\<open>"Users can view their own roles" ... USING (auth.uid() = user_id)\<close> is the only
  policy of \<^verbatim>\<open>user_roles\<close>.
\<close>

definition select_user_roles :: "database \<Rightarrow> uuid option \<Rightarrow> user_role list" where
  "select_user_roles d uid = filter (\<lambda>r. uid = Some (ur_user_id r)) (user_roles d)"

text \<open>
  \<^verbatim>\<open>"Anyone can view active services" ... USING (is_active = true OR has_role(auth.uid(),
  'admin'))\<close>, and \<^verbatim>\<open>"Admins can manage services" FOR ALL\<close>.
\<close>

definition select_services :: "database \<Rightarrow> uuid option \<Rightarrow> service list" where
  "select_services d uid =
     filter (\<lambda>s. (s_is_active s \<or> has_role d uid Admin) \<or> has_role d uid Admin) (services d)"

text \<open>
  The INSERT policy of \<^verbatim>\<open>documents\<close> (and, word for word, of \<^verbatim>\<open>payments\<close>):
  \<^verbatim>\<open>
  WITH CHECK (EXISTS (SELECT 1 FROM public.applications
                      WHERE applications.id = documents.application_id
                      AND applications.citizen_id = auth.uid()))
  \<close>
  The subquery runs as the caller, so it sees the applications the caller may read.
\<close>

definition citizens_can_insert_documents_for_their_applications ::
  "database \<Rightarrow> uuid option \<Rightarrow> uuid \<Rightarrow> bool" where
  "citizens_can_insert_documents_for_their_applications d uid application_id =
     list_ex (\<lambda>a. a_id a = application_id \<and> Some (a_citizen_id a) = uid)
       (select_applications d uid)"

definition citizens_can_create_payments_for_their_applications ::
  "database \<Rightarrow> uuid option \<Rightarrow> uuid \<Rightarrow> bool" where
  "citizens_can_create_payments_for_their_applications d uid application_id =
     list_ex (\<lambda>a. a_id a = application_id \<and> Some (a_citizen_id a) = uid)
       (select_applications d uid)"

section \<open>Writes, as the database decides them\<close>

text \<open>
  Each write takes the caller, the value \<^verbatim>\<open>gen_random_uuid()\<close> gives the new row and
  the value of \<^verbatim>\<open>NOW()\<close>. A refused statement changes nothing: the result is the
  error alone. The payloads carry the columns the client sends; every other column
  takes its DEFAULT.
\<close>

record app_insert =
  ai_citizen_id :: uuid
  ai_service_id :: uuid
  ai_status :: string

record doc_insert =
  di_application_id :: uuid
  di_file_name :: string
  di_file_url :: string
  di_doc_type :: string

record pay_insert =
  pi_application_id :: uuid
  pi_amount :: decimal
  pi_status :: string
  pi_payment_method :: "string option"
  pi_paid_at :: "timestamptz option"

text \<open>
  The payload of an update of \<^verbatim>\<open>applications\<close>: \<open>ud_completed_on = None\<close> is a
  payload without the key \<^verbatim>\<open>completed_on\<close>, which leaves the column as it is.
\<close>

record update_data =
  ud_status :: string
  ud_remarks :: "string option"
  ud_completed_on :: "timestamptz option"

definition insert_application ::
  "database \<Rightarrow> uuid option \<Rightarrow> uuid \<Rightarrow> timestamptz \<Rightarrow> app_insert \<Rightarrow> error + database \<times> application" where
  "insert_application d uid new_id now ins =
     (case application_status_of (ai_status ins) of
        None \<Rightarrow> Inl Invalid_enum_value
      | Some st \<Rightarrow>
          (let row = \<lparr>a_id = new_id, a_citizen_id = ai_citizen_id ins,
                       a_service_id = ai_service_id ins, a_officer_id = None, a_status = st,
                       a_remarks = None, a_applied_on = now, a_completed_on = None,
                       a_created_at = now, a_updated_at = now\<rparr>
           in if \<not> citizens_can_create_applications uid row then Inl Rls_violation
              else if new_id \<in> set (map a_id (applications d)) then Inl Unique_violation
              else if ai_citizen_id ins \<notin> set (map au_id (users d))
                      \<or> ai_service_id ins \<notin> set (map s_id (services d))
                   then Inl Foreign_key_violation
              else Inr (d\<lparr>applications := applications d @ [row]\<rparr>, row)))"

definition insert_document ::
  "database \<Rightarrow> uuid option \<Rightarrow> uuid \<Rightarrow> timestamptz \<Rightarrow> doc_insert \<Rightarrow> error + database \<times> document" where
  "insert_document d uid new_id now ins =
     (let row = \<lparr>d_id = new_id, d_application_id = di_application_id ins,
                  d_file_name = di_file_name ins, d_file_url = di_file_url ins,
                  d_doc_type = di_doc_type ins, d_uploaded_at = now\<rparr>
      in if \<not> citizens_can_insert_documents_for_their_applications d uid (d_application_id row)
         then Inl Rls_violation
         else if new_id \<in> set (map d_id (documents d)) then Inl Unique_violation
         else if di_application_id ins \<notin> set (map a_id (applications d))
              then Inl Foreign_key_violation
         else Inr (d\<lparr>documents := documents d @ [row]\<rparr>, row))"

definition insert_payment ::
  "database \<Rightarrow> uuid option \<Rightarrow> uuid \<Rightarrow> timestamptz \<Rightarrow> pay_insert \<Rightarrow> error + database \<times> payment" where
  "insert_payment d uid new_id now ins =
     (case payment_status_of (pi_status ins) of
        None \<Rightarrow> Inl Invalid_enum_value
      | Some st \<Rightarrow>
          (let row = \<lparr>pay_id = new_id, pay_application_id = pi_application_id ins,
                       pay_transaction_id = None, pay_amount = pi_amount ins, pay_status = st,
                       pay_payment_method = pi_payment_method ins,
                       pay_paid_at = pi_paid_at ins, pay_created_at = now\<rparr>
           in if \<not> citizens_can_create_payments_for_their_applications d uid
                      (pay_application_id row)
              then Inl Rls_violation
              else if new_id \<in> set (map pay_id (payments d)) then Inl Unique_violation
              else if pi_application_id ins \<notin> set (map a_id (applications d))
                   then Inl Foreign_key_violation
              else Inr (d\<lparr>payments := payments d @ [row]\<rparr>, row)))"

text \<open>
  \<^verbatim>\<open>UPDATE applications SET ... WHERE id = appId\<close>. The statement touches the rows the
  caller may read and that pass \<^verbatim>\<open>"Officers can update applications"\<close>; a row that
  does not pass is skipped without an error. The trigger
  \<^verbatim>\<open>update_applications_updated_at\<close> sets \<^verbatim>\<open>updated_at = NOW()\<close> on each updated row.
\<close>

definition apply_update :: "update_data \<Rightarrow> application_status \<Rightarrow> timestamptz \<Rightarrow> application \<Rightarrow> application" where
  "apply_update upd st now a =
     a\<lparr>a_status := st,
       a_remarks := ud_remarks upd,
       a_completed_on := (case ud_completed_on upd of None \<Rightarrow> a_completed_on a | Some t \<Rightarrow> Some t),
       a_updated_at := now\<rparr>"

definition update_applications ::
  "database \<Rightarrow> uuid option \<Rightarrow> timestamptz \<Rightarrow> update_data \<Rightarrow> uuid \<Rightarrow> error + database \<times> unit" where
  "update_applications d uid now upd appId =
     (case application_status_of (ud_status upd) of
        None \<Rightarrow> Inl Invalid_enum_value
      | Some st \<Rightarrow>
          Inr (d\<lparr>applications :=
                   map (\<lambda>a. if a_id a = appId \<and> applications_select_policy d uid a
                                \<and> officers_can_update_applications d uid
                             then apply_update upd st now a else a)
                     (applications d)\<rparr>, ()))"

subsection \<open>Storage\<close>

text \<open>
  \<open>split_on c s\<close> is JavaScript's \<^verbatim>\<open>s.split(c)\<close> for a one-character separator (and
  \<^verbatim>\<open>string_to_array(s, c)\<close>): the pieces between the separators, never an empty list.
\<close>

fun split_on :: "char \<Rightarrow> string \<Rightarrow> string list" where
  "split_on c [] = [[]]"
| "split_on c (x # xs) =
     (if x = c then [] # split_on c xs
      else (case split_on c xs of
              [] \<Rightarrow> [[x]]
            | y # ys \<Rightarrow> (x # y) # ys))"

text \<open>
  \<^verbatim>\<open>storage.foldername(name)\<close> belongs to the hosted backend: the segments of the object
  name but the last. The policy
  \<^verbatim>\<open>
  CREATE POLICY "Citizens can upload documents for their applications"
    ON storage.objects FOR INSERT
    WITH CHECK (bucket_id = 'application-documents' AND
                auth.uid()::text = (storage.foldername(name))[1]);
  \<close>
  reads its first element, NULL when there is none.
\<close>

definition storage_foldername :: "string \<Rightarrow> string list" where
  "storage_foldername name = butlast (split_on CHR ''/'' name)"

definition citizens_can_upload_documents_for_their_applications ::
  "uuid option \<Rightarrow> storage_object \<Rightarrow> bool" where
  "citizens_can_upload_documents_for_their_applications uid obj =
     (o_bucket_id obj = ''application-documents''
      \<and> (case storage_foldername (o_name obj) of [] \<Rightarrow> False | seg # _ \<Rightarrow> uid = Some seg))"

definition storage_upload ::
  "database \<Rightarrow> uuid option \<Rightarrow> string \<Rightarrow> string \<Rightarrow> js_file \<Rightarrow> error + database \<times> unit" where
  "storage_upload d uid bucket name f =
     (let obj = \<lparr>o_bucket_id = bucket, o_name = name, o_file = f\<rparr>
      in if \<not> citizens_can_upload_documents_for_their_applications uid obj then Inl Rls_violation
         else if list_ex (\<lambda>x. o_bucket_id x = bucket \<and> o_name x = name) (objects d)
              then Inl Duplicate_object
         else Inr (d\<lparr>objects := objects d @ [obj]\<rparr>, ()))"

subsection \<open>Signup\<close>

text \<open>
  \<^verbatim>\<open>
  CREATE FUNCTION public.handle_new_user() RETURNS TRIGGER ... SECURITY DEFINER AS $$
  BEGIN
    INSERT INTO public.profiles (id, email, full_name)
    VALUES (NEW.id, NEW.email, COALESCE(NEW.raw_user_meta_data->>'full_name', 'User'));
    INSERT INTO public.user_roles (user_id, role) VALUES (NEW.id, 'citizen');
    RETURN NEW;
  END; $$;
  \<close>
  The function runs as its owner, so no policy applies; the constraints do:
  \<^verbatim>\<open>profiles.email\<close> is NOT NULL, \<^verbatim>\<open>profiles.id\<close> and \<^verbatim>\<open>user_roles.id\<close> are primary
  keys, and \<^verbatim>\<open>user_roles\<close> is \<^verbatim>\<open>UNIQUE(user_id, role)\<close>.
\<close>

definition handle_new_user :: "database \<Rightarrow> auth_user \<Rightarrow> uuid \<Rightarrow> timestamptz \<Rightarrow> error + database" where
  "handle_new_user d new role_row_id now =
     (case au_email new of
        None \<Rightarrow> Inl Not_null_violation
      | Some email \<Rightarrow>
          if au_id new \<in> set (map p_id (profiles d)) then Inl Unique_violation
          else
            (let d1 = d\<lparr>profiles := profiles d @
                        [\<lparr>p_id = au_id new, p_email = email, p_phone = None,
                          p_full_name = (case au_full_name new of None \<Rightarrow> ''User'' | Some n \<Rightarrow> n),
                          p_created_at = now, p_updated_at = now\<rparr>]\<rparr>
             in if role_row_id \<in> set (map ur_id (user_roles d1))
                   \<or> list_ex (\<lambda>r. ur_user_id r = au_id new \<and> ur_role r = Citizen) (user_roles d1)
                then Inl Unique_violation
                else Inr (d1\<lparr>user_roles := user_roles d1 @
                            [\<lparr>ur_id = role_row_id, ur_user_id = au_id new, ur_role = Citizen,
                              ur_created_at = now\<rparr>]\<rparr>)))"

text \<open>
  \<^verbatim>\<open>CREATE TRIGGER on_auth_user_created AFTER INSERT ON auth.users FOR EACH ROW EXECUTE
  FUNCTION public.handle_new_user()\<close>: the trigger runs inside the statement that inserts
  the user, so an error of the trigger undoes that insert too.
\<close>

definition on_auth_user_created :: "database \<Rightarrow> auth_user \<Rightarrow> uuid \<Rightarrow> timestamptz \<Rightarrow> error + database" where
  "on_auth_user_created d new role_row_id now =
     (if au_id new \<in> set (map au_id (users d)) then Inl Unique_violation
      else handle_new_user (d\<lparr>users := users d @ [new]\<rparr>) new role_row_id now)"

section \<open>The client and the backend it talks to\<close>

text \<open>
  Every call of the Supabase client is one request. The trace keeps each request that
  was issued, in order, with whether it succeeded. A request is lost on the way (the
  next entry of \<open>faults\<close> is \<open>True\<close>) before the database sees it; otherwise the
  database decides. \<open>uuid_gen\<close> and \<open>uuid_ctr\<close> stand for \<^verbatim>\<open>gen_random_uuid()\<close>, \<open>clock\<close>
  for \<^verbatim>\<open>NOW()\<close>.
\<close>

datatype request =
  Auth_get_user
  | Select_user_roles uuid
  | Select_application_stats
  | Count_citizens
  | Insert_application app_insert
  | Storage_upload string string js_file
  | Insert_document doc_insert
  | Insert_payment pay_insert
  | Update_applications update_data uuid

record world =
  db :: database
  faults :: "bool list"
  trace :: "(request \<times> bool) list"
  uuid_gen :: "nat \<Rightarrow> uuid"
  uuid_ctr :: nat
  clock :: timestamptz

definition lost :: "world \<Rightarrow> bool" where
  "lost w = (case faults w of [] \<Rightarrow> False | f # _ \<Rightarrow> f)"

definition attempt :: "world \<Rightarrow> request \<Rightarrow> error + database \<times> 'r \<Rightarrow> world \<times> (error + 'r)" where
  "attempt w req res =
     (if lost w
      then (w\<lparr>faults := tl (faults w), trace := trace w @ [(req, False)]\<rparr>, Inl Network_error)
      else
        (case res of
           Inl e \<Rightarrow>
             (w\<lparr>faults := tl (faults w), trace := trace w @ [(req, False)],
                clock := Suc (clock w)\<rparr>, Inl e)
         | Inr (d', r) \<Rightarrow>
             (w\<lparr>db := d', faults := tl (faults w), trace := trace w @ [(req, True)],
                clock := Suc (clock w)\<rparr>, Inr r)))"

text \<open>A write that draws a fresh identifier moves the generator on.\<close>

definition attempt_insert ::
  "world \<Rightarrow> request \<Rightarrow> (database \<Rightarrow> uuid \<Rightarrow> timestamptz \<Rightarrow> error + database \<times> 'r) \<Rightarrow> world \<times> (error + 'r)" where
  "attempt_insert w req ins =
     (case attempt w req (ins (db w) (uuid_gen w (uuid_ctr w)) (clock w)) of
        (w', r) \<Rightarrow> (w'\<lparr>uuid_ctr := Suc (uuid_ctr w)\<rparr>, r))"

text \<open>
  \<^verbatim>\<open>supabase.auth.getUser()\<close>: the user of the session, \<^verbatim>\<open>null\<close> when there is no
  session or the request fails.
\<close>

definition auth_getUser :: "world \<Rightarrow> uuid option \<Rightarrow> world \<times> uuid option" where
  "auth_getUser w session =
     (case attempt w Auth_get_user
             (case session of None \<Rightarrow> Inl (Js_error ''Auth session missing!'')
                            | Some u \<Rightarrow> Inr (db w, u)) of
        (w', Inl _) \<Rightarrow> (w', None)
      | (w', Inr u) \<Rightarrow> (w', Some u))"

text \<open>
  \<^verbatim>\<open>supabase.from("user_roles").select("role").eq("user_id", user_id)\<close>.
\<close>

definition from_user_roles_select :: "world \<Rightarrow> uuid option \<Rightarrow> uuid \<Rightarrow> world \<times> (error + user_role list)" where
  "from_user_roles_select w session user_id =
     attempt w (Select_user_roles user_id)
       (Inr (db w, filter (\<lambda>r. ur_user_id r = user_id) (select_user_roles (db w) session)))"

text \<open>What a handler shows or where it goes.\<close>

datatype ui_event =
  Toast_error string
  | Toast_failure error string
  | Toast_success string
  | Navigate string

text \<open>
  \<open>Toast_failure e fallback\<close> is \<^verbatim>\<open>toast.error(error.message || fallback)\<close> for a thrown
  \<open>e\<close>.
\<close>

subsection \<open>src/pages/Index.tsx\<close>

text \<open>
  \<^verbatim>\<open>
  const checkAuth = async () => {
    const { data: { session } } = await supabase.auth.getSession();
    if (!session) { navigate("/auth"); return; }
    try {
      const { data: userRoles } = await supabase.from("user_roles").select("role")
        .eq("user_id", session.user.id);
      const roles = userRoles?.map(r => r.role) || [];
      if (roles.length === 0) { navigate("/auth"); }
      else if (roles.length === 1) {
        switch (roles[0]) {
          case "citizen": navigate("/citizen"); break;
          case "officer": navigate("/officer"); break;
          case "admin": navigate("/admin"); break;
          default: navigate("/auth");
        }
      } else { navigate("/select-role"); }
    } catch (error) { ...; navigate("/auth"); } ...
  \<close>
  A failed query leaves \<^verbatim>\<open>userRoles\<close> null. The roles are values of the enum, so the
  \<^verbatim>\<open>default\<close> branch has no case here.
\<close>

definition checkAuth :: "world \<Rightarrow> uuid option \<Rightarrow> world \<times> string" where
  "checkAuth w session =
     (case session of
        None \<Rightarrow> (w, ''/auth'')
      | Some user_id \<Rightarrow>
          (case from_user_roles_select w session user_id of
             (w1, userRoles) \<Rightarrow>
               (let roles = (case userRoles of Inl _ \<Rightarrow> [] | Inr rows \<Rightarrow> map ur_role rows)
                in (w1,
                    if length roles = 0 then ''/auth''
                    else if length roles = 1 then
                      (case roles ! 0 of
                         Citizen \<Rightarrow> ''/citizen''
                       | Officer \<Rightarrow> ''/officer''
                       | Admin \<Rightarrow> ''/admin'')
                    else ''/select-role''))))"

subsection \<open>src/App.tsx\<close>

datatype page =
  Index | Auth | CitizenDashboard | OfficerDashboard | AdminDashboard | RoleSelector
  | ApplyService | NotFound

text \<open>The route table, on the paths the code navigates to.\<close>

definition App_routes :: "string \<Rightarrow> page" where
  "App_routes path =
     (if path = ''/'' then Index
      else if path = ''/auth'' then Auth
      else if path = ''/citizen'' then CitizenDashboard
      else if path = ''/officer'' then OfficerDashboard
      else if path = ''/admin'' then AdminDashboard
      else if take 7 path = ''/apply/'' \<and> drop 7 path \<noteq> [] \<and> CHR ''/'' \<notin> set (drop 7 path)
           then ApplyService
      else if path = ''/select-role'' then RoleSelector
      else NotFound)"

subsection \<open>src/pages/RoleSelector.tsx\<close>

definition app_role_text :: "app_role \<Rightarrow> string" where
  "app_role_text r = (case r of Citizen \<Rightarrow> ''citizen'' | Officer \<Rightarrow> ''officer'' | Admin \<Rightarrow> ''admin'')"

text \<open>
  \<^verbatim>\<open>
  const redirectToRole = (role: string) => {
    switch (role) {
      case "citizen": navigate("/"); break;
      case "officer": navigate("/officer"); break;
      case "admin": navigate("/admin"); break;
      default: toast.error("Invalid role");
    }
  };
  \<close>
\<close>

definition redirectToRole :: "string \<Rightarrow> ui_event" where
  "redirectToRole role =
     (if role = ''citizen'' then Navigate ''/''
      else if role = ''officer'' then Navigate ''/officer''
      else if role = ''admin'' then Navigate ''/admin''
      else Toast_error ''Invalid role'')"

text \<open>
  \<open>checkUserRoles\<close> returns the \<^verbatim>\<open>roles\<close> state of the selector: a card is rendered for
  each role in it (\<^verbatim>\<open>roles.includes("citizen") && ...\<close>), and a click on the card calls
  \<open>redirectToRole\<close> with that role.
\<close>

definition checkUserRoles :: "world \<Rightarrow> uuid option \<Rightarrow> world \<times> string list \<times> ui_event list" where
  "checkUserRoles w session =
     (case auth_getUser w session of
        (w0, None) \<Rightarrow> (w0, [], [Navigate ''/auth''])
      | (w0, Some user_id) \<Rightarrow>
          (case from_user_roles_select w0 session user_id of
             (w1, Inl e) \<Rightarrow> (w1, [], [Toast_error ''Failed to check user roles''])
           | (w1, Inr userRoles) \<Rightarrow>
               (let rolesList = map (\<lambda>r. app_role_text (ur_role r)) userRoles
                in if length rolesList = 0
                   then (w1, [], [Toast_error ''No role assigned. Please contact administrator.''])
                   else (w1, rolesList,
                         if length rolesList = 1 then [redirectToRole (rolesList ! 0)] else []))))"

subsection \<open>src/pages/ApplyService.tsx\<close>

text \<open>
  The \<^verbatim>\<open>files\<close> state is a plain object from document label to \<^verbatim>\<open>File\<close>, created
  as \<^verbatim>\<open>{}\<close> and by \<^verbatim>\<open>{ ...prev, [docType]: file }\<close>. It is kept as the list
  \<^verbatim>\<open>Object.entries(files)\<close> gives: its own properties. A read \<^verbatim>\<open>files[doc]\<close> also
  finds what the object inherits from \<^verbatim>\<open>Object.prototype\<close>: \<^verbatim>\<open>({})["constructor"]\<close> is
  the function \<^verbatim>\<open>Object\<close>. The standard properties of \<^verbatim>\<open>Object.prototype\<close> are the
  twelve below, each a function or, for \<^verbatim>\<open>__proto__\<close>, the prototype object: all
  truthy, as every \<^verbatim>\<open>File\<close> is. So \<^verbatim>\<open>!files[doc]\<close> is \<open>\<not> files_truthy files doc\<close>.
\<close>

definition Object_prototype_names :: "string list" where
  "Object_prototype_names =
     [''constructor'', ''hasOwnProperty'', ''isPrototypeOf'', ''propertyIsEnumerable'',
      ''toLocaleString'', ''toString'', ''valueOf'', ''__proto__'', ''__defineGetter__'',
      ''__defineSetter__'', ''__lookupGetter__'', ''__lookupSetter__'']"

definition files_truthy :: "(string \<times> js_file) list \<Rightarrow> string \<Rightarrow> bool" where
  "files_truthy files doc =
     (case map_of files doc of
        Some f \<Rightarrow> True
      | None \<Rightarrow> doc \<in> set Object_prototype_names)"

text \<open>\<open>join sep xs\<close> is \<^verbatim>\<open>xs.join(sep)\<close>.\<close>

fun join :: "string \<Rightarrow> string list \<Rightarrow> string" where
  "join sep [] = []"
| "join sep [x] = x"
| "join sep (x # y # ys) = x @ sep @ join sep (y # ys)"

definition from_applications_insert_select_single ::
  "world \<Rightarrow> uuid option \<Rightarrow> app_insert \<Rightarrow> world \<times> (error + application)" where
  "from_applications_insert_select_single w session ins =
     attempt_insert w (Insert_application ins)
       (\<lambda>d new_id now.
          case insert_application d session new_id now ins of
            Inl e \<Rightarrow> Inl e
          | Inr (d', row) \<Rightarrow>
              if applications_select_policy d' session row then Inr (d', row)
              else Inl Rls_violation)"

definition storage_from_upload ::
  "world \<Rightarrow> uuid option \<Rightarrow> string \<Rightarrow> string \<Rightarrow> js_file \<Rightarrow> world \<times> (error + unit)" where
  "storage_from_upload w session bucket name f =
     attempt w (Storage_upload bucket name f) (storage_upload (db w) session bucket name f)"

definition from_documents_insert :: "world \<Rightarrow> uuid option \<Rightarrow> doc_insert \<Rightarrow> world \<times> (error + document)" where
  "from_documents_insert w session ins =
     attempt_insert w (Insert_document ins) (\<lambda>d new_id now. insert_document d session new_id now ins)"

definition from_payments_insert :: "world \<Rightarrow> uuid option \<Rightarrow> pay_insert \<Rightarrow> world \<times> (error + payment)" where
  "from_payments_insert w session ins =
     attempt_insert w (Insert_payment ins) (\<lambda>d new_id now. insert_payment d session new_id now ins)"

text \<open>
  The name an entry of \<^verbatim>\<open>files\<close> is uploaded under, and the row that points at it:
  \<^verbatim>\<open>
  const fileExt = file.name.split(".").pop();
  const fileName = `${user.id}/${application.id}/${docType}.${fileExt}`;
  \<close>
  \<^verbatim>\<open>getPublicUrl\<close> is the storage client's; it is a parameter.
\<close>

definition fileName_of :: "uuid \<Rightarrow> uuid \<Rightarrow> string \<Rightarrow> js_file \<Rightarrow> string" where
  "fileName_of user_id application_id docType f =
     user_id @ ''/'' @ application_id @ ''/'' @ docType @ ''.'' @ last (split_on CHR ''.'' (f_name f))"

definition document_of :: "(string \<Rightarrow> string) \<Rightarrow> uuid \<Rightarrow> uuid \<Rightarrow> string \<Rightarrow> js_file \<Rightarrow> doc_insert" where
  "document_of getPublicUrl user_id application_id docType f =
     \<lparr>di_application_id = application_id, di_file_name = f_name f,
      di_file_url = getPublicUrl (fileName_of user_id application_id docType f),
      di_doc_type = docType\<rparr>"

text \<open>
  The loop \<^verbatim>\<open>for (const [docType, file] of Object.entries(files))\<close>: a \<^verbatim>\<open>throw\<close> leaves
  it with the error.
\<close>

fun upload_documents ::
  "world \<Rightarrow> uuid option \<Rightarrow> (string \<Rightarrow> string) \<Rightarrow> uuid \<Rightarrow> uuid \<Rightarrow> (string \<times> js_file) list
     \<Rightarrow> world \<times> (error + unit)" where
  "upload_documents w session getPublicUrl user_id application_id [] = (w, Inr ())"
| "upload_documents w session getPublicUrl user_id application_id ((docType, f) # rest) =
     (case storage_from_upload w session ''application-documents''
             (fileName_of user_id application_id docType f) f of
        (w1, Inl uploadError) \<Rightarrow> (w1, Inl uploadError)
      | (w1, Inr _) \<Rightarrow>
          (case from_documents_insert w1 session
                  (document_of getPublicUrl user_id application_id docType f) of
             (w2, Inl docError) \<Rightarrow> (w2, Inl docError)
           | (w2, Inr _) \<Rightarrow> upload_documents w2 session getPublicUrl user_id application_id rest))"

text \<open>
  \<open>handleSubmit\<close>, with the \<^verbatim>\<open>service\<close> and \<^verbatim>\<open>files\<close> state and the instant
  \<^verbatim>\<open>new Date()\<close> gives when the payment is written.
\<close>

definition handleSubmit ::
  "world \<Rightarrow> uuid option \<Rightarrow> (string \<Rightarrow> string) \<Rightarrow> timestamptz \<Rightarrow> service option
     \<Rightarrow> (string \<times> js_file) list \<Rightarrow> world \<times> ui_event list" where
  "handleSubmit w session getPublicUrl now service files =
     (case service of
        None \<Rightarrow> (w, [])
      | Some svc \<Rightarrow>
          (let missingDocs = filter (\<lambda>doc. \<not> files_truthy files doc) (s_required_documents svc)
           in if length missingDocs > 0
              then (w, [Toast_error (''Please upload: '' @ join '', '' missingDocs)])
              else
                (case auth_getUser w session of
                   (w0, None) \<Rightarrow>
                     (w0, [Toast_failure (Js_error ''Not authenticated'')
                             ''Failed to submit application''])
                 | (w0, Some user_id) \<Rightarrow>
                     (case from_applications_insert_select_single w0 session
                             \<lparr>ai_citizen_id = user_id, ai_service_id = s_id svc,
                              ai_status = ''pending''\<rparr> of
                        (w1, Inl appError) \<Rightarrow>
                          (w1, [Toast_failure appError ''Failed to submit application''])
                      | (w1, Inr application) \<Rightarrow>
                          (case upload_documents w1 session getPublicUrl user_id
                                  (a_id application) files of
                             (w2, Inl e) \<Rightarrow> (w2, [Toast_failure e ''Failed to submit application''])
                           | (w2, Inr _) \<Rightarrow>
                               (case from_payments_insert w2 session
                                       \<lparr>pi_application_id = a_id application,
                                        pi_amount = s_fee svc, pi_status = ''completed'',
                                        pi_payment_method = Some ''mock'',
                                        pi_paid_at = Some now\<rparr> of
                                  (w3, Inl paymentError) \<Rightarrow>
                                    (w3, [Toast_failure paymentError
                                            ''Failed to submit application''])
                                | (w3, Inr _) \<Rightarrow>
                                    (w3, [Toast_success ''Application submitted successfully!'',
                                          Navigate ''/''])))))))"

text \<open>
  The requests of one submission in the order \<open>handleSubmit\<close> issues them when none
  fails: the user, the application, then for each entry of \<^verbatim>\<open>files\<close> the upload and the
  document row, then the payment.
\<close>

definition document_requests ::
  "(string \<Rightarrow> string) \<Rightarrow> uuid \<Rightarrow> uuid \<Rightarrow> (string \<times> js_file) list \<Rightarrow> request list" where
  "document_requests getPublicUrl user_id application_id files =
     concat (map (\<lambda>(docType, f).
                    [Storage_upload ''application-documents''
                       (fileName_of user_id application_id docType f) f,
                     Insert_document (document_of getPublicUrl user_id application_id docType f)])
               files)"

definition submission_requests ::
  "(string \<Rightarrow> string) \<Rightarrow> timestamptz \<Rightarrow> uuid \<Rightarrow> uuid \<Rightarrow> service \<Rightarrow> (string \<times> js_file) list
     \<Rightarrow> request list" where
  "submission_requests getPublicUrl now user_id application_id svc files =
     [Auth_get_user,
      Insert_application
        \<lparr>ai_citizen_id = user_id, ai_service_id = s_id svc, ai_status = ''pending''\<rparr>]
     @ document_requests getPublicUrl user_id application_id files
     @ [Insert_payment
          \<lparr>pi_application_id = application_id, pi_amount = s_fee svc, pi_status = ''completed'',
           pi_payment_method = Some ''mock'', pi_paid_at = Some now\<rparr>]"

text \<open>
  A trace in which every request of \<open>reqs\<close> succeeded, and one that stopped at the first
  request that failed: the requests before it succeeded, none after it was issued.
\<close>

definition all_succeeded :: "request list \<Rightarrow> (request \<times> bool) list" where
  "all_succeeded reqs = map (\<lambda>r. (r, True)) reqs"

definition stopped_in :: "request list \<Rightarrow> (request \<times> bool) list \<Rightarrow> bool" where
  "stopped_in reqs entries =
     (\<exists>pre r post. reqs = pre @ r # post \<and> entries = all_succeeded pre @ [(r, False)])"

subsection \<open>src/pages/OfficerDashboard.tsx\<close>

text \<open>
  \<^verbatim>\<open>
  const handleUpdateStatus = async (appId: string, newStatus: string) => {
    ...
      const updateData: any = { status: newStatus, remarks: remarks[appId] || null };
      if (newStatus === "approved" || newStatus === "rejected") {
        updateData.completed_on = new Date().toISOString();
      }
      const { error } = await supabase.from("applications").update(updateData).eq("id", appId);
      if (error) throw error;
      toast.success(`Application ${newStatus}`);
      fetchApplications();
      setRemarks(prev => ({ ...prev, [appId]: "" }));
    } catch (error) { ...; toast.error("Failed to update application"); } ...
  \<close>
  The \<^verbatim>\<open>remarks\<close> state maps an application to the text of its field; a key is absent
  until the field is edited, and the empty text is falsy. \<^verbatim>\<open>fetchApplications()\<close> only
  reads, to render the list again, and \<^verbatim>\<open>processingId\<close> only disables the buttons
  meanwhile; neither is part of the state here.
\<close>

definition handleUpdateStatus ::
  "world \<Rightarrow> uuid option \<Rightarrow> timestamptz \<Rightarrow> (string \<rightharpoonup> string) \<Rightarrow> string \<Rightarrow> string
     \<Rightarrow> world \<times> (string \<rightharpoonup> string) \<times> ui_event list" where
  "handleUpdateStatus w session now remarks appId newStatus =
     (let updateData0 =
            \<lparr>ud_status = newStatus,
             ud_remarks = (case remarks appId of
                             None \<Rightarrow> None
                           | Some r \<Rightarrow> if r = [] then None else Some r),
             ud_completed_on = None\<rparr>;
          updateData =
            (if newStatus = ''approved'' \<or> newStatus = ''rejected''
             then updateData0\<lparr>ud_completed_on := Some now\<rparr>
             else updateData0)
      in case attempt w (Update_applications updateData appId)
                (update_applications (db w) session (clock w) updateData appId) of
           (w1, Inl e) \<Rightarrow> (w1, remarks, [Toast_error ''Failed to update application''])
         | (w1, Inr _) \<Rightarrow>
             (w1, remarks(appId \<mapsto> []), [Toast_success (''Application '' @ newStatus)]))"

text \<open>
  The lifecycle invariant of a row: \<^verbatim>\<open>completed_on\<close> is set exactly in the two
  terminal statuses.
\<close>

definition completed_iff_terminal :: "application \<Rightarrow> bool" where
  "completed_iff_terminal a =
     (a_completed_on a \<noteq> None \<longleftrightarrow> a_status a = Approved \<or> a_status a = Rejected)"

subsection \<open>src/pages/AdminDashboard.tsx\<close>

record stats =
  totalApplications :: nat
  pendingApplications :: nat
  approvedApplications :: nat
  rejectedApplications :: nat
  totalRevenue :: decimal
  totalCitizens :: nat

text \<open>
  A row of \<^verbatim>\<open>supabase.from("applications").select("status, services(fee)")\<close>: the
  status, and the fee of the service when the caller may read the service.
\<close>

record stat_row =
  sr_status :: application_status
  sr_services :: "decimal option"

definition select_application_stats :: "database \<Rightarrow> uuid option \<Rightarrow> stat_row list" where
  "select_application_stats d uid =
     map (\<lambda>a. \<lparr>sr_status = a_status a,
                sr_services = map_option s_fee
                  (find (\<lambda>s. s_id s = a_service_id a) (select_services d uid))\<rparr>)
       (select_applications d uid)"

text \<open>
  \<^verbatim>\<open>supabase.from("user_roles").select("*", { count: "exact", head: true })
  .eq("role", "citizen")\<close>.
\<close>

definition count_citizens :: "database \<Rightarrow> uuid option \<Rightarrow> nat" where
  "count_citizens d uid = length (filter (\<lambda>r. ur_role r = Citizen) (select_user_roles d uid))"

text \<open>
  \<^verbatim>\<open>
  const pending = applications?.filter(a => a.status === "pending").length || 0;
  const approved = applications?.filter(a => a.status === "approved").length || 0;
  const rejected = applications?.filter(a => a.status === "rejected").length || 0;
  const revenue = applications?.filter(a => a.status === "approved")
    .reduce((sum, app) => sum + (Number(app.services?.fee) || 0), 0) || 0;
  ...
  setStats({ totalApplications: applications?.length || 0, pendingApplications: pending,
    approvedApplications: approved, rejectedApplications: rejected,
    totalRevenue: revenue, totalCitizens: citizenCount || 0 });
  \<close>
  The model adds the fees exactly; JavaScript adds them as floating-point numbers. A
  query without an error has its rows, so \<^verbatim>\<open>applications\<close> is a list (\<open>apps\<close>). On an error
  the handler shows a toast and leaves the \<^verbatim>\<open>stats\<close> state as it was.
\<close>

definition fetchStats :: "world \<Rightarrow> uuid option \<Rightarrow> stats \<Rightarrow> world \<times> stats \<times> ui_event list" where
  "fetchStats w session st =
     (case attempt w Select_application_stats
             (Inr (db w, select_application_stats (db w) session)) of
        (w1, Inl appError) \<Rightarrow> (w1, st, [Toast_error ''Failed to load statistics''])
      | (w1, Inr apps) \<Rightarrow>
          (let pending = length (filter (\<lambda>a. sr_status a = Pending) apps);
               approved = length (filter (\<lambda>a. sr_status a = Approved) apps);
               rejected = length (filter (\<lambda>a. sr_status a = Rejected) apps);
               revenue = foldl (\<lambda>sum app. sum + (case sr_services app of None \<Rightarrow> 0 | Some fee \<Rightarrow> fee))
                           0 (filter (\<lambda>a. sr_status a = Approved) apps)
           in case attempt w1 Count_citizens (Inr (db w1, count_citizens (db w1) session)) of
                (w2, Inl citizenError) \<Rightarrow> (w2, st, [Toast_error ''Failed to load statistics''])
              | (w2, Inr citizenCount) \<Rightarrow>
                  (w2,
                   \<lparr>totalApplications = length apps,
                    pendingApplications = pending,
                    approvedApplications = approved,
                    rejectedApplications = rejected,
                    totalRevenue = revenue,
                    totalCitizens = citizenCount\<rparr>,
                   [])))"

section \<open>A small state to run the handlers on\<close>

text \<open>
  Two citizens (the second is an officer too), an officer, a service with two required
  documents, a service whose one required document is labelled \<^verbatim>\<open>constructor\<close>, and
  four applications.
\<close>

definition example_service :: service where
  "example_service =
     \<lparr>s_id = ''s1'', s_department_id = ''dep1'', s_name = ''Residence Certificate'',
      s_description = None, s_fee = 5000, s_required_documents = [''D1'', ''D2''],
      s_processing_time_days = 7, s_is_active = True, s_created_at = 0\<rparr>"

definition example_builder_service :: service where
  "example_builder_service =
     \<lparr>s_id = ''s2'', s_department_id = ''dep1'', s_name = ''Builder Registration'',
      s_description = None, s_fee = 2500, s_required_documents = [''constructor''],
      s_processing_time_days = 7, s_is_active = True, s_created_at = 0\<rparr>"

definition example_application :: "uuid \<Rightarrow> uuid \<Rightarrow> application_status \<Rightarrow> timestamptz option \<Rightarrow> application" where
  "example_application i c st done =
     \<lparr>a_id = i, a_citizen_id = c, a_service_id = ''s1'', a_officer_id = None, a_status = st,
      a_remarks = Some ''old'', a_applied_on = 1, a_completed_on = done, a_created_at = 1,
      a_updated_at = 1\<rparr>"

definition example_db :: database where
  "example_db =
     \<lparr>users = [\<lparr>au_id = ''c1'', au_email = Some ''c1@x'', au_full_name = None\<rparr>,
               \<lparr>au_id = ''c2'', au_email = Some ''c2@x'', au_full_name = None\<rparr>,
               \<lparr>au_id = ''o1'', au_email = Some ''o1@x'', au_full_name = None\<rparr>],
      profiles = [],
      user_roles = [\<lparr>ur_id = ''r1'', ur_user_id = ''c1'', ur_role = Citizen, ur_created_at = 0\<rparr>,
                    \<lparr>ur_id = ''r2'', ur_user_id = ''c2'', ur_role = Citizen, ur_created_at = 0\<rparr>,
                    \<lparr>ur_id = ''r3'', ur_user_id = ''c2'', ur_role = Officer, ur_created_at = 0\<rparr>,
                    \<lparr>ur_id = ''r4'', ur_user_id = ''o1'', ur_role = Officer, ur_created_at = 0\<rparr>],
      services = [example_service, example_builder_service],
      applications = [example_application ''a1'' ''c1'' Pending None,
                      example_application ''a2'' ''c1'' Approved (Some 5),
                      example_application ''a3'' ''c2'' Under_review None,
                      example_application ''a4'' ''c2'' Rejected (Some 6)],
      documents = [], payments = [], objects = []\<rparr>"

definition example_world :: world where
  "example_world =
     \<lparr>db = example_db, faults = [], trace = [],
      uuid_gen = (\<lambda>n. ''n'' @ replicate n CHR ''x''), uuid_ctr = 0, clock = 100\<rparr>"

definition example_files :: "(string \<times> js_file) list" where
  "example_files =
     [(''D1'', \<lparr>f_name = ''a.pdf'', f_bytes = [1, 2]\<rparr>),
      (''D2'', \<lparr>f_name = ''b.tar.gz'', f_bytes = [3]\<rparr>)]"

definition example_getPublicUrl :: "string \<Rightarrow> string" where
  "example_getPublicUrl name = ''https://x/'' @ name"

definition zero_stats :: stats where
  "zero_stats = \<lparr>totalApplications = 0, pendingApplications = 0, approvedApplications = 0,
                  rejectedApplications = 0, totalRevenue = 0, totalCitizens = 0\<rparr>"

section \<open>Admin statistics\<close>

lemma stat_partition:
  "length xs =
     length (filter (\<lambda>a. sr_status a = Pending) xs)
     + length (filter (\<lambda>a. sr_status a = Approved) xs)
     + length (filter (\<lambda>a. sr_status a = Rejected) xs)
     + length (filter (\<lambda>a. sr_status a = Under_review \<or> sr_status a = Additional_info_required) xs)"
proof (induction xs)
  case Nil
  show ?case by simp
next
  case (Cons x xs)
  then show ?case by (cases "sr_status x") simp_all
qed

lemma fetchStats_ok:
  assumes "snd (snd (fetchStats w session st)) = []"
  shows "fst (snd (fetchStats w session st)) =
     (let apps = select_application_stats (db w) session in
      \<lparr>totalApplications = length apps,
       pendingApplications = length (filter (\<lambda>a. sr_status a = Pending) apps),
       approvedApplications = length (filter (\<lambda>a. sr_status a = Approved) apps),
       rejectedApplications = length (filter (\<lambda>a. sr_status a = Rejected) apps),
       totalRevenue = foldl (\<lambda>sum app. sum + (case sr_services app of None \<Rightarrow> 0 | Some fee \<Rightarrow> fee))
                           0 (filter (\<lambda>a. sr_status a = Approved) apps),
       totalCitizens = count_citizens (db w) session\<rparr>)"
  using assms
  by (auto simp: fetchStats_def attempt_def Let_def split: if_splits sum.splits prod.splits)

text \<open>
  C10. When \<open>fetchStats\<close> sets the statistics (it shows no error), the total is the number
  of fetched rows, the pending, approved and rejected counts add up to at most the total,
  they add up to the total exactly when no fetched row is \<^verbatim>\<open>under_review\<close> or
  \<^verbatim>\<open>additional_info_required\<close>, and the rows in those two statuses are the difference.
\<close>

theorem fetchStats_status_buckets:
  assumes "snd (snd (fetchStats w session st)) = []"
  shows "let s = fst (snd (fetchStats w session st));
             apps = select_application_stats (db w) session;
             other = filter (\<lambda>a. sr_status a = Under_review
                                  \<or> sr_status a = Additional_info_required) apps
         in totalApplications s = length apps
            \<and> pendingApplications s + approvedApplications s + rejectedApplications s
                 \<le> totalApplications s
            \<and> (pendingApplications s + approvedApplications s + rejectedApplications s
                 = totalApplications s \<longleftrightarrow> other = [])
            \<and> totalApplications s
                 = pendingApplications s + approvedApplications s + rejectedApplications s
                   + length other"
proof -
  define apps where "apps = select_application_stats (db w) session"
  have part: "length apps =
     length (filter (\<lambda>a. sr_status a = Pending) apps)
     + length (filter (\<lambda>a. sr_status a = Approved) apps)
     + length (filter (\<lambda>a. sr_status a = Rejected) apps)
     + length (filter (\<lambda>a. sr_status a = Under_review \<or> sr_status a = Additional_info_required) apps)"
    by (rule stat_partition)
  show ?thesis
    unfolding fetchStats_ok [OF assms] Let_def apps_def [symmetric]
    using part by simp
qed

lemma example_fetchStats:
  "fetchStats example_world (Some ''o1'') zero_stats =
     (example_world\<lparr>trace := [(Select_application_stats, True), (Count_citizens, True)],
                     clock := 102\<rparr>,
      \<lparr>totalApplications = 4, pendingApplications = 1, approvedApplications = 1,
       rejectedApplications = 1, totalRevenue = 5000, totalCitizens = 0\<rparr>, [])"
  by (simp add: fetchStats_def attempt_def lost_def example_world_def example_db_def
      example_application_def example_service_def select_application_stats_def
      select_applications_def select_services_def applications_select_policy_def
      citizens_can_view_their_own_applications_def officers_can_view_all_applications_def
      has_role_def count_citizens_def select_user_roles_def zero_stats_def)

theorem fetchStats_status_buckets_witness:
  "snd (snd (fetchStats example_world (Some ''o1'') zero_stats)) = []
   \<and> totalApplications (fst (snd (fetchStats example_world (Some ''o1'') zero_stats))) = 4
   \<and> pendingApplications (fst (snd (fetchStats example_world (Some ''o1'') zero_stats))) = 1
   \<and> approvedApplications (fst (snd (fetchStats example_world (Some ''o1'') zero_stats))) = 1
   \<and> rejectedApplications (fst (snd (fetchStats example_world (Some ''o1'') zero_stats))) = 1
   \<and> length (filter (\<lambda>a. sr_status a = Under_review \<or> sr_status a = Additional_info_required)
        (select_application_stats (db example_world) (Some ''o1''))) = 1"
proof -
  have h: "snd (snd (fetchStats example_world (Some ''o1'') zero_stats)) = []"
    by (simp add: example_fetchStats)
  show ?thesis
    using fetchStats_status_buckets [OF h] h
    by (simp add: example_fetchStats Let_def)
qed

section \<open>Officer status updates\<close>

lemma example_not_lost: "\<not> lost example_world"
  by (simp add: lost_def example_world_def)

lemma example_officer: "officers_can_update_applications (db example_world) (Some ''o1'')"
  by (simp add: officers_can_update_applications_def has_role_def example_world_def example_db_def)

lemma example_applications:
  "applications (db example_world) =
     [example_application ''a1'' ''c1'' Pending None,
      example_application ''a2'' ''c1'' Approved (Some 5),
      example_application ''a3'' ''c2'' Under_review None,
      example_application ''a4'' ''c2'' Rejected (Some 6)]"
  by (simp add: example_world_def example_db_def)

lemma officers_read_all:
  "officers_can_update_applications d uid \<Longrightarrow> applications_select_policy d uid a"
  by (simp add: officers_can_update_applications_def applications_select_policy_def
      officers_can_view_all_applications_def)

lemma handleUpdateStatus_db:
  assumes "\<not> lost w" and "application_status_of newStatus = Some st"
    and "officers_can_update_applications (db w) session"
  shows "applications (db (fst (handleUpdateStatus w session now remarks appId newStatus))) =
     map (\<lambda>a. if a_id a = appId
               then a\<lparr>a_status := st,
                      a_remarks := (case remarks appId of
                                      None \<Rightarrow> None
                                    | Some r \<Rightarrow> if r = [] then None else Some r),
                      a_completed_on := (if newStatus = ''approved'' \<or> newStatus = ''rejected''
                                         then Some now else a_completed_on a),
                      a_updated_at := clock w\<rparr>
               else a)
       (applications (db w))"
  using assms
  by (simp add: handleUpdateStatus_def attempt_def update_applications_def apply_update_def
      officers_read_all Let_def)

lemma status_terminal:
  "application_status_of s = Some st \<Longrightarrow>
     (st = Approved \<or> st = Rejected) = (s = ''approved'' \<or> s = ''rejected'')"
  by (auto simp: application_status_of_def split: if_splits)

lemma list_all_map_if:
  "list_all P xs \<Longrightarrow>
     list_all P (map (\<lambda>a. if Q a then f a else a) xs) = list_all (\<lambda>a. Q a \<longrightarrow> P (f a)) xs"
  by (induction xs) auto

text \<open>
  C9. An officer's status update that reaches the database writes \<^verbatim>\<open>remarks\<close> on the
  row of the application: NULL when the remarks field of that application is empty or
  was never edited, whatever the row held before, and the text of the field when it is
  not empty. The other rows keep their remarks.
\<close>

theorem handleUpdateStatus_remarks:
  assumes "\<not> lost w" and "application_status_of newStatus \<noteq> None"
    and "officers_can_update_applications (db w) session"
  shows "(remarks appId = None \<or> remarks appId = Some [] \<longrightarrow>
            map a_remarks (applications (db (fst (handleUpdateStatus w session now remarks appId newStatus))))
            = map (\<lambda>a. if a_id a = appId then None else a_remarks a) (applications (db w)))
       \<and> (\<forall>r. remarks appId = Some r \<and> r \<noteq> [] \<longrightarrow>
            map a_remarks (applications (db (fst (handleUpdateStatus w session now remarks appId newStatus))))
            = map (\<lambda>a. if a_id a = appId then Some r else a_remarks a) (applications (db w)))"
proof -
  from assms(2) obtain st where st: "application_status_of newStatus = Some st" by auto
  show ?thesis
    unfolding handleUpdateStatus_db [OF assms(1) st assms(3)]
    by (auto simp: o_def)
qed

theorem handleUpdateStatus_remarks_witness:
  "map a_remarks (applications (db (fst
      (handleUpdateStatus example_world (Some ''o1'') 9 Map.empty ''a1'' ''approved''))))
     = [None, Some ''old'', Some ''old'', Some ''old'']
   \<and> map a_remarks (applications (db (fst
      (handleUpdateStatus example_world (Some ''o1'') 9 [''a1'' \<mapsto> ''seen''] ''a1'' ''approved''))))
     = [Some ''seen'', Some ''old'', Some ''old'', Some ''old'']"
proof -
  have st: "application_status_of ''approved'' \<noteq> None"
    by (simp add: application_status_of_def)
  show ?thesis
    using handleUpdateStatus_remarks [where w = example_world and session = "Some ''o1''" and now = 9
        and remarks = "Map.empty" and appId = "''a1''" and newStatus = "''approved''",
        OF example_not_lost st example_officer]
      handleUpdateStatus_remarks [where w = example_world and session = "Some ''o1''" and now = 9
        and remarks = "[''a1'' \<mapsto> ''seen'']" and appId = "''a1''" and newStatus = "''approved''",
        OF example_not_lost st example_officer]
    by (simp add: example_applications example_application_def)
qed

text \<open>
  C1. The dashboard's two buttons pass \<^verbatim>\<open>approved\<close> and \<^verbatim>\<open>rejected\<close>; every other new
  status is a transition of the lifecycle, from a row that is not in a terminal status.
  On a table where \<^verbatim>\<open>completed_on\<close> is set exactly in the terminal statuses, such an
  update by an officer that reaches the database sets \<^verbatim>\<open>completed_on\<close> of the row to the
  current instant when the new status is \<^verbatim>\<open>approved\<close> or \<^verbatim>\<open>rejected\<close>, leaves it NULL for
  every other new status, and gives a table where \<^verbatim>\<open>completed_on\<close> is again set exactly in
  the terminal statuses.
\<close>

theorem handleUpdateStatus_completed_on:
  assumes "\<not> lost w" and "application_status_of newStatus \<noteq> None"
    and "officers_can_update_applications (db w) session"
    and "list_all completed_iff_terminal (applications (db w))"
    and "newStatus = ''approved'' \<or> newStatus = ''rejected''
         \<or> list_all (\<lambda>a. a_id a = appId \<longrightarrow> a_status a \<noteq> Approved \<and> a_status a \<noteq> Rejected)
              (applications (db w))"
  shows "(newStatus = ''approved'' \<or> newStatus = ''rejected'' \<longrightarrow>
            map a_completed_on (applications (db (fst (handleUpdateStatus w session now remarks appId newStatus))))
            = map (\<lambda>a. if a_id a = appId then Some now else a_completed_on a) (applications (db w)))
       \<and> (newStatus \<noteq> ''approved'' \<and> newStatus \<noteq> ''rejected'' \<longrightarrow>
            map a_completed_on (applications (db (fst (handleUpdateStatus w session now remarks appId newStatus))))
            = map (\<lambda>a. if a_id a = appId then None else a_completed_on a) (applications (db w)))
       \<and> list_all completed_iff_terminal
            (applications (db (fst (handleUpdateStatus w session now remarks appId newStatus))))"
proof -
  from assms(2) obtain st where st: "application_status_of newStatus = Some st" by auto
  note tm = status_terminal [OF st]
  note upd = handleUpdateStatus_db [OF assms(1) st assms(3)]
  have open_rows: "newStatus \<noteq> ''approved'' \<and> newStatus \<noteq> ''rejected'' \<Longrightarrow>
      a \<in> set (applications (db w)) \<Longrightarrow> a_id a = appId \<Longrightarrow> a_completed_on a = None" for a
  proof -
    assume n: "newStatus \<noteq> ''approved'' \<and> newStatus \<noteq> ''rejected''"
      and a: "a \<in> set (applications (db w))" and i: "a_id a = appId"
    from assms(5) n a i have "a_status a \<noteq> Approved \<and> a_status a \<noteq> Rejected"
      by (auto simp: list_all_iff)
    moreover from assms(4) a have "completed_iff_terminal a"
      by (simp add: list_all_iff)
    ultimately show "a_completed_on a = None"
      by (simp add: completed_iff_terminal_def)
  qed
  have a: "newStatus = ''approved'' \<or> newStatus = ''rejected'' \<longrightarrow>
            map a_completed_on (applications (db (fst (handleUpdateStatus w session now remarks appId newStatus))))
            = map (\<lambda>a. if a_id a = appId then Some now else a_completed_on a) (applications (db w))"
    unfolding upd by (auto simp: o_def)
  have b: "newStatus \<noteq> ''approved'' \<and> newStatus \<noteq> ''rejected'' \<longrightarrow>
            map a_completed_on (applications (db (fst (handleUpdateStatus w session now remarks appId newStatus))))
            = map (\<lambda>a. if a_id a = appId then None else a_completed_on a) (applications (db w))"
    unfolding upd using open_rows by (auto simp: o_def)
  have c: "list_all completed_iff_terminal
            (applications (db (fst (handleUpdateStatus w session now remarks appId newStatus))))"
    unfolding upd list_all_map_if [OF assms(4)]
    using tm open_rows by (auto simp: list_all_iff completed_iff_terminal_def)
  from a b c show ?thesis by (intro conjI)
qed

theorem handleUpdateStatus_completed_on_witness:
  "map a_completed_on (applications (db (fst
      (handleUpdateStatus example_world (Some ''o1'') 9 Map.empty ''a1'' ''approved''))))
     = [Some 9, Some 5, None, Some 6]
   \<and> list_all completed_iff_terminal (applications (db (fst
      (handleUpdateStatus example_world (Some ''o1'') 9 Map.empty ''a1'' ''approved''))))
   \<and> map a_completed_on (applications (db (fst
      (handleUpdateStatus example_world (Some ''o1'') 9 Map.empty ''a1'' ''under_review''))))
     = [None, Some 5, None, Some 6]
   \<and> list_all completed_iff_terminal (applications (db (fst
      (handleUpdateStatus example_world (Some ''o1'') 9 Map.empty ''a1'' ''under_review''))))"
proof -
  have st1: "application_status_of ''approved'' \<noteq> None"
    by (simp add: application_status_of_def)
  have st2: "application_status_of ''under_review'' \<noteq> None"
    by (simp add: application_status_of_def)
  have inv: "list_all completed_iff_terminal (applications (db example_world))"
    by (simp add: example_applications example_application_def completed_iff_terminal_def)
  have l1: "''approved'' = ''approved'' \<or> ''approved'' = ''rejected''
         \<or> list_all (\<lambda>a. a_id a = ''a1'' \<longrightarrow> a_status a \<noteq> Approved \<and> a_status a \<noteq> Rejected)
              (applications (db example_world))"
    by simp
  have l2: "''under_review'' = ''approved'' \<or> ''under_review'' = ''rejected''
         \<or> list_all (\<lambda>a. a_id a = ''a1'' \<longrightarrow> a_status a \<noteq> Approved \<and> a_status a \<noteq> Rejected)
              (applications (db example_world))"
    by (simp add: example_applications example_application_def)
  show ?thesis
    using handleUpdateStatus_completed_on [where w = example_world and session = "Some ''o1''"
        and now = 9 and remarks = Map.empty and appId = "''a1''" and newStatus = "''approved''",
        OF example_not_lost st1 example_officer inv l1]
      handleUpdateStatus_completed_on [where w = example_world and session = "Some ''o1''"
        and now = 9 and remarks = Map.empty and appId = "''a1''"
        and newStatus = "''under_review''",
        OF example_not_lost st2 example_officer inv l2]
    by (simp add: example_applications example_application_def)
qed

section \<open>Authorization policies and the signup trigger\<close>

lemma own_application_visible:
  "list_ex (\<lambda>a. a_id a = i \<and> Some (a_citizen_id a) = uid) (select_applications d uid)
   = list_ex (\<lambda>a. a_id a = i \<and> Some (a_citizen_id a) = uid) (applications d)"
  by (auto simp: list_ex_iff select_applications_def applications_select_policy_def
      citizens_can_view_their_own_applications_def)

text \<open>
  C4, as the policies have it. A read of \<^verbatim>\<open>applications\<close> returns exactly the rows the
  SELECT policies permit: the caller's own rows, and every row for an officer or an
  admin. An insert succeeds only for a row whose \<^verbatim>\<open>citizen_id\<close> is the caller, and
  whether it succeeds does not depend on the caller's roles. An update by an officer or
  an admin changes every row it addresses; an update by anyone else changes nothing.
\<close>

theorem applications_policies:
  "select_applications d uid
     = filter (\<lambda>a. uid = Some (a_citizen_id a) \<or> has_role d uid Officer \<or> has_role d uid Admin)
         (applications d)
   \<and> (\<not> has_role d uid Officer \<and> \<not> has_role d uid Admin \<longrightarrow>
        select_applications d uid = filter (\<lambda>a. uid = Some (a_citizen_id a)) (applications d))
   \<and> (has_role d uid Officer \<or> has_role d uid Admin \<longrightarrow>
        select_applications d uid = applications d)
   \<and> ((\<exists>d' row. insert_application d uid new_id now ins = Inr (d', row)) \<longleftrightarrow>
        uid = Some (ai_citizen_id ins)
        \<and> application_status_of (ai_status ins) \<noteq> None
        \<and> new_id \<notin> set (map a_id (applications d))
        \<and> ai_citizen_id ins \<in> set (map au_id (users d))
        \<and> ai_service_id ins \<in> set (map s_id (services d)))
   \<and> (has_role d uid Officer \<or> has_role d uid Admin \<longrightarrow>
        (\<forall>st. application_status_of (ud_status upd) = Some st \<longrightarrow>
           update_applications d uid now upd appId
             = Inr (d\<lparr>applications :=
                        map (\<lambda>a. if a_id a = appId then apply_update upd st now a else a)
                          (applications d)\<rparr>, ())))
   \<and> (\<not> has_role d uid Officer \<and> \<not> has_role d uid Admin \<longrightarrow>
        (\<forall>st. application_status_of (ud_status upd) = Some st \<longrightarrow>
           update_applications d uid now upd appId = Inr (d, ())))"
proof -
  have sel: "select_applications d uid
     = filter (\<lambda>a. uid = Some (a_citizen_id a) \<or> has_role d uid Officer \<or> has_role d uid Admin)
         (applications d)"
    unfolding select_applications_def
    by (rule filter_cong [OF refl])
      (simp add: applications_select_policy_def citizens_can_view_their_own_applications_def
        officers_can_view_all_applications_def)
  have ins: "(\<exists>d' row. insert_application d uid new_id now ins = Inr (d', row)) \<longleftrightarrow>
        uid = Some (ai_citizen_id ins)
        \<and> application_status_of (ai_status ins) \<noteq> None
        \<and> new_id \<notin> set (map a_id (applications d))
        \<and> ai_citizen_id ins \<in> set (map au_id (users d))
        \<and> ai_service_id ins \<in> set (map s_id (services d))"
    by (auto simp: insert_application_def citizens_can_create_applications_def Let_def
        split: option.splits)
  have upd1: "has_role d uid Officer \<or> has_role d uid Admin \<longrightarrow>
        (\<forall>st. application_status_of (ud_status upd) = Some st \<longrightarrow>
           update_applications d uid now upd appId
             = Inr (d\<lparr>applications :=
                        map (\<lambda>a. if a_id a = appId then apply_update upd st now a else a)
                          (applications d)\<rparr>, ()))"
    by (simp add: update_applications_def officers_can_update_applications_def
        applications_select_policy_def officers_can_view_all_applications_def)
  have upd2: "\<not> has_role d uid Officer \<and> \<not> has_role d uid Admin \<longrightarrow>
        (\<forall>st. application_status_of (ud_status upd) = Some st \<longrightarrow>
           update_applications d uid now upd appId = Inr (d, ()))"
    by (simp add: update_applications_def officers_can_update_applications_def)
  show ?thesis
    using sel ins upd1 upd2 by simp
qed

theorem applications_policies_witness:
  "map a_id (select_applications example_db (Some ''c1'')) = [''a1'', ''a2'']
   \<and> map a_id (select_applications example_db (Some ''o1'')) = [''a1'', ''a2'', ''a3'', ''a4'']
   \<and> update_applications example_db (Some ''c1'') 9
        \<lparr>ud_status = ''approved'', ud_remarks = None, ud_completed_on = Some 9\<rparr> ''a1''
      = Inr (example_db, ())"
proof -
  have c: "\<not> has_role example_db (Some ''c1'') Officer \<and> \<not> has_role example_db (Some ''c1'') Admin"
    by (simp add: has_role_def example_db_def)
  have o: "has_role example_db (Some ''o1'') Officer \<or> has_role example_db (Some ''o1'') Admin"
    by (simp add: has_role_def example_db_def)
  have st: "application_status_of ''approved'' = Some Approved"
    by (simp add: application_status_of_def)
  have apps: "applications example_db =
     [example_application ''a1'' ''c1'' Pending None,
      example_application ''a2'' ''c1'' Approved (Some 5),
      example_application ''a3'' ''c2'' Under_review None,
      example_application ''a4'' ''c2'' Rejected (Some 6)]"
    by (simp add: example_db_def)
  show ?thesis
    using c o st
      applications_policies [where d = example_db and uid = "Some ''c1''" and now = 9
        and appId = "''a1''"
        and upd = "\<lparr>ud_status = ''approved'', ud_remarks = None, ud_completed_on = Some 9\<rparr>"]
      applications_policies [where d = example_db and uid = "Some ''o1''"]
    by (simp add: apps example_application_def)
qed

text \<open>
  C4 as the specification states it fails where it says that an officer may not insert:
  \<open>o1\<close>, who holds the officer role only, inserts an application of their own.
\<close>

theorem officer_insert_counterexample:
  "has_role example_db (Some ''o1'') Officer
   \<and> \<not> has_role example_db (Some ''o1'') Citizen
   \<and> (case insert_application example_db (Some ''o1'') ''n'' 100
              \<lparr>ai_citizen_id = ''o1'', ai_service_id = ''s1'', ai_status = ''pending''\<rparr> of
         Inl e \<Rightarrow> []
       | Inr (d', row) \<Rightarrow> map (\<lambda>a. (a_id a, a_citizen_id a)) (applications d'))
      = [(''a1'', ''c1''), (''a2'', ''c1''), (''a3'', ''c2''), (''a4'', ''c2''), (''n'', ''o1'')]"
  by (simp add: has_role_def insert_application_def application_status_of_def
      citizens_can_create_applications_def example_db_def example_application_def
      example_service_def Let_def)


text \<open>
  C7. The insert of a user with its trigger either fails, on a violated constraint, and
  then returns nothing but the error, or it adds the user, one profile whose id is the
  user's and one \<^verbatim>\<open>user_roles\<close> row with the role \<^verbatim>\<open>citizen\<close>, both together; the user
  then has exactly one profile and exactly one citizen row.
\<close>

theorem on_auth_user_created_rows:
  "(case on_auth_user_created d new role_row_id now of
      Inl e \<Rightarrow>
        au_id new \<in> set (map au_id (users d))
        \<or> au_email new = None
        \<or> au_id new \<in> set (map p_id (profiles d))
        \<or> role_row_id \<in> set (map ur_id (user_roles d))
        \<or> list_ex (\<lambda>r. ur_user_id r = au_id new \<and> ur_role r = Citizen) (user_roles d)
    | Inr d' \<Rightarrow>
        users d' = users d @ [new]
        \<and> (\<exists>email. au_email new = Some email
             \<and> profiles d' = profiles d @
                 [\<lparr>p_id = au_id new, p_email = email, p_phone = None,
                   p_full_name = (case au_full_name new of None \<Rightarrow> ''User'' | Some n \<Rightarrow> n),
                   p_created_at = now, p_updated_at = now\<rparr>])
        \<and> user_roles d' = user_roles d @
              [\<lparr>ur_id = role_row_id, ur_user_id = au_id new, ur_role = Citizen,
                ur_created_at = now\<rparr>]
        \<and> length (filter (\<lambda>p. p_id p = au_id new) (profiles d')) = 1
        \<and> length (filter (\<lambda>r. ur_user_id r = au_id new \<and> ur_role r = Citizen) (user_roles d')) = 1
        \<and> services d' = services d \<and> applications d' = applications d
        \<and> documents d' = documents d \<and> payments d' = payments d \<and> objects d' = objects d)"
proof (cases "on_auth_user_created d new role_row_id now")
  case (Inl e)
  then show ?thesis
    by (auto simp: on_auth_user_created_def handle_new_user_def Let_def
        split: if_splits option.splits)
next
  case (Inr d')
  then have ok: "au_id new \<notin> set (map au_id (users d))" "au_email new \<noteq> None"
      "au_id new \<notin> set (map p_id (profiles d))"
      "role_row_id \<notin> set (map ur_id (user_roles d))"
      "\<not> list_ex (\<lambda>r. ur_user_id r = au_id new \<and> ur_role r = Citizen) (user_roles d)"
    by (auto simp: on_auth_user_created_def handle_new_user_def Let_def
        split: if_splits option.splits)
  from ok(2) obtain email where email: "au_email new = Some email" by auto
  have d': "d' = d\<lparr>users := users d @ [new],
                   profiles := profiles d @
                     [\<lparr>p_id = au_id new, p_email = email, p_phone = None,
                       p_full_name = (case au_full_name new of None \<Rightarrow> ''User'' | Some n \<Rightarrow> n),
                       p_created_at = now, p_updated_at = now\<rparr>],
                   user_roles := user_roles d @
                     [\<lparr>ur_id = role_row_id, ur_user_id = au_id new, ur_role = Citizen,
                       ur_created_at = now\<rparr>]\<rparr>"
    using Inr ok email
    by (simp add: on_auth_user_created_def handle_new_user_def Let_def)
  have np: "filter (\<lambda>p. p_id p = au_id new) (profiles d) = []"
    using ok(3) by (force simp: filter_empty_conv image_iff)
  have nr: "filter (\<lambda>r. ur_user_id r = au_id new \<and> ur_role r = Citizen) (user_roles d) = []"
    using ok(5) by (auto simp: filter_empty_conv list_ex_iff)
  show ?thesis
    unfolding Inr by (simp add: d' email np nr)
qed


theorem on_auth_user_created_rows_witness:
  "(case on_auth_user_created example_db
           \<lparr>au_id = ''z1'', au_email = Some ''z1@x'', au_full_name = None\<rparr> ''r9'' 50 of
      Inl e \<Rightarrow> []
    | Inr d' \<Rightarrow> map (\<lambda>r. (ur_user_id r, ur_role r)) (user_roles d'))
   = [(''c1'', Citizen), (''c2'', Citizen), (''c2'', Officer), (''o1'', Officer), (''z1'', Citizen)]
   \<and> (case on_auth_user_created example_db
           \<lparr>au_id = ''z1'', au_email = Some ''z1@x'', au_full_name = None\<rparr> ''r9'' 50 of
      Inl e \<Rightarrow> []
    | Inr d' \<Rightarrow> map (\<lambda>p. (p_id p, p_full_name p)) (profiles d'))
   = [(''z1'', ''User'')]"
  using on_auth_user_created_rows [where d = example_db and role_row_id = "''r9''" and now = 50
      and new = "\<lparr>au_id = ''z1'', au_email = Some ''z1@x'', au_full_name = None\<rparr>"]
  by (simp add: on_auth_user_created_def handle_new_user_def example_db_def Let_def)

text \<open>
  C8. A document insert that reaches the database, with a fresh row id, succeeds exactly
  when the application it names is one of the caller's own: then the row is added to
  \<^verbatim>\<open>documents\<close>; otherwise the policy refuses it and the database is as before.
\<close>

theorem from_documents_insert_policy:
  assumes "\<not> lost w"
    and "uuid_gen w (uuid_ctr w) \<notin> set (map d_id (documents (db w)))"
  shows "(list_ex (\<lambda>a. a_id a = di_application_id ins \<and> a_citizen_id a = u) (applications (db w))
            \<longrightarrow> (\<exists>row. snd (from_documents_insert w (Some u) ins) = Inr row
                  \<and> d_application_id row = di_application_id ins
                  \<and> documents (db (fst (from_documents_insert w (Some u) ins)))
                      = documents (db w) @ [row]))
       \<and> (\<not> list_ex (\<lambda>a. a_id a = di_application_id ins \<and> a_citizen_id a = u) (applications (db w))
            \<longrightarrow> snd (from_documents_insert w (Some u) ins) = Inl Rls_violation
                \<and> db (fst (from_documents_insert w (Some u) ins)) = db w)"
proof -
  have pol: "citizens_can_insert_documents_for_their_applications (db w) (Some u) (di_application_id ins)
      = list_ex (\<lambda>a. a_id a = di_application_id ins \<and> a_citizen_id a = u) (applications (db w))"
    unfolding citizens_can_insert_documents_for_their_applications_def own_application_visible
    by simp
  have fk: "list_ex (\<lambda>a. a_id a = di_application_id ins \<and> a_citizen_id a = u) (applications (db w))
      \<Longrightarrow> di_application_id ins \<in> set (map a_id (applications (db w)))"
    by (force simp: list_ex_iff image_iff)
  show ?thesis
    using assms fk
    by (auto simp: from_documents_insert_def attempt_insert_def attempt_def insert_document_def
        pol Let_def)
qed

theorem from_documents_insert_policy_witness:
  "(case snd (from_documents_insert example_world (Some ''c1'')
        \<lparr>di_application_id = ''a1'', di_file_name = ''f.pdf'', di_file_url = ''u'',
         di_doc_type = ''D1''\<rparr>) of Inl e \<Rightarrow> [] | Inr row \<Rightarrow> [d_application_id row]) = [''a1'']
   \<and> snd (from_documents_insert example_world (Some ''c1'')
        \<lparr>di_application_id = ''a3'', di_file_name = ''f.pdf'', di_file_url = ''u'',
         di_doc_type = ''D1''\<rparr>) = Inl Rls_violation
   \<and> db (fst (from_documents_insert example_world (Some ''c1'')
        \<lparr>di_application_id = ''a3'', di_file_name = ''f.pdf'', di_file_url = ''u'',
         di_doc_type = ''D1''\<rparr>)) = db example_world"
proof -
  have h1: "\<not> lost example_world"
    by (simp add: lost_def example_world_def)
  have h2: "uuid_gen example_world (uuid_ctr example_world)
      \<notin> set (map d_id (documents (db example_world)))"
    by (simp add: example_world_def example_db_def)
  have apps: "applications (db example_world) =
     [example_application ''a1'' ''c1'' Pending None,
      example_application ''a2'' ''c1'' Approved (Some 5),
      example_application ''a3'' ''c2'' Under_review None,
      example_application ''a4'' ''c2'' Rejected (Some 6)]"
    by (simp add: example_world_def example_db_def)
  show ?thesis
    using from_documents_insert_policy [where w = example_world and u = "''c1''"
        and ins = "\<lparr>di_application_id = ''a1'', di_file_name = ''f.pdf'', di_file_url = ''u'',
                     di_doc_type = ''D1''\<rparr>", OF h1 h2]
      from_documents_insert_policy [where w = example_world and u = "''c1''"
        and ins = "\<lparr>di_application_id = ''a3'', di_file_name = ''f.pdf'', di_file_url = ''u'',
                     di_doc_type = ''D1''\<rparr>", OF h1 h2]
    by (auto simp: apps example_application_def)
qed

section \<open>Role routing\<close>

lemma has_role_set:
  "{r. has_role d (Some u) r} = set (map ur_role (filter (\<lambda>r. ur_user_id r = u) (user_roles d)))"
  by (auto simp: has_role_def list_ex_iff)

lemma roles_of_user_distinct:
  "distinct (map (\<lambda>r. (ur_user_id r, ur_role r)) xs)
     \<Longrightarrow> distinct (map ur_role (filter (\<lambda>r. ur_user_id r = u) xs))"
  by (induction xs) (auto simp: image_iff)

lemma checkAuth_eq:
  assumes "\<not> lost w"
  shows "checkAuth w (Some u) =
     (w\<lparr>faults := tl (faults w), trace := trace w @ [(Select_user_roles u, True)],
        clock := Suc (clock w)\<rparr>,
      let roles = map ur_role (filter (\<lambda>r. ur_user_id r = u) (user_roles (db w)))
      in if length roles = 0 then ''/auth''
         else if length roles = 1 then
           (case roles ! 0 of Citizen \<Rightarrow> ''/citizen'' | Officer \<Rightarrow> ''/officer'' | Admin \<Rightarrow> ''/admin'')
         else ''/select-role'')"
proof -
  have f: "filter (\<lambda>x. u = ur_user_id x \<and> ur_user_id x = u) xs
      = filter (\<lambda>r. ur_user_id r = u) xs" for xs :: "user_role list"
    by (rule filter_cong) auto
  show ?thesis
    using assms
    by (simp add: checkAuth_def from_user_roles_select_def attempt_def select_user_roles_def f
        Let_def)
qed

text \<open>
  C5. With a session, \<open>checkAuth\<close> reads the roles of the caller (one request, a read;
  the database is as before) and, when the read is answered: with no role it goes to
  \<^verbatim>\<open>/auth\<close>; with exactly one role to that role's dashboard (\<^verbatim>\<open>/citizen\<close>, \<^verbatim>\<open>/officer\<close>,
  \<^verbatim>\<open>/admin\<close>); with more than one role to \<^verbatim>\<open>/select-role\<close>. \<^verbatim>\<open>user_roles\<close> is
  \<^verbatim>\<open>UNIQUE(user_id, role)\<close>, so the rows read are the role set.
\<close>

theorem checkAuth_routes:
  assumes "\<not> lost w"
    and "distinct (map (\<lambda>r. (ur_user_id r, ur_role r)) (user_roles (db w)))"
  shows "db (fst (checkAuth w (Some u))) = db w
     \<and> trace (fst (checkAuth w (Some u))) = trace w @ [(Select_user_roles u, True)]
     \<and> ({r. has_role (db w) (Some u) r} = {} \<longrightarrow> snd (checkAuth w (Some u)) = ''/auth'')
     \<and> ({r. has_role (db w) (Some u) r} = {Citizen} \<longrightarrow> snd (checkAuth w (Some u)) = ''/citizen'')
     \<and> ({r. has_role (db w) (Some u) r} = {Officer} \<longrightarrow> snd (checkAuth w (Some u)) = ''/officer'')
     \<and> ({r. has_role (db w) (Some u) r} = {Admin} \<longrightarrow> snd (checkAuth w (Some u)) = ''/admin'')
     \<and> (1 < card {r. has_role (db w) (Some u) r} \<longrightarrow> snd (checkAuth w (Some u)) = ''/select-role'')"
proof -
  define roles where "roles = map ur_role (filter (\<lambda>r. ur_user_id r = u) (user_roles (db w)))"
  have s: "{r. has_role (db w) (Some u) r} = set roles"
    unfolding roles_def by (rule has_role_set)
  have d: "distinct roles"
    unfolding roles_def by (rule roles_of_user_distinct [OF assms(2)])
  have c: "card (set roles) = length roles"
    using d by (rule distinct_card)
  have one: "set roles = {r} \<Longrightarrow> roles = [r]" for r
  proof -
    assume a: "set roles = {r}"
    then have "length roles = 1" using c by simp
    then obtain x where "roles = [x]" by (cases roles) auto
    with a show ?thesis by simp
  qed
  have route: "snd (checkAuth w (Some u)) =
      (if length roles = 0 then ''/auth''
       else if length roles = 1 then
         (case roles ! 0 of Citizen \<Rightarrow> ''/citizen'' | Officer \<Rightarrow> ''/officer'' | Admin \<Rightarrow> ''/admin'')
       else ''/select-role'')"
    by (simp add: checkAuth_eq [OF assms(1)] roles_def Let_def)
  have r0: "set roles = {} \<longrightarrow> snd (checkAuth w (Some u)) = ''/auth''"
    by (simp add: route)
  have r1: "set roles = {Citizen} \<longrightarrow> snd (checkAuth w (Some u)) = ''/citizen''"
  proof
    assume "set roles = {Citizen}"
    then have "roles = [Citizen]" by (rule one)
    then show "snd (checkAuth w (Some u)) = ''/citizen''" by (simp add: route)
  qed
  have r2: "set roles = {Officer} \<longrightarrow> snd (checkAuth w (Some u)) = ''/officer''"
  proof
    assume "set roles = {Officer}"
    then have "roles = [Officer]" by (rule one)
    then show "snd (checkAuth w (Some u)) = ''/officer''" by (simp add: route)
  qed
  have r3: "set roles = {Admin} \<longrightarrow> snd (checkAuth w (Some u)) = ''/admin''"
  proof
    assume "set roles = {Admin}"
    then have "roles = [Admin]" by (rule one)
    then show "snd (checkAuth w (Some u)) = ''/admin''" by (simp add: route)
  qed
  have r4: "1 < card (set roles) \<longrightarrow> snd (checkAuth w (Some u)) = ''/select-role''"
    unfolding c by (auto simp: route)
  have w': "db (fst (checkAuth w (Some u))) = db w
     \<and> trace (fst (checkAuth w (Some u))) = trace w @ [(Select_user_roles u, True)]"
    by (simp add: checkAuth_eq [OF assms(1)])
  show ?thesis
    unfolding s by (intro conjI w' [THEN conjunct1] w' [THEN conjunct2] r0 r1 r2 r3 r4)
qed

lemma example_roles_unique:
  "distinct (map (\<lambda>r. (ur_user_id r, ur_role r)) (user_roles (db example_world)))"
  by (simp add: example_world_def example_db_def)

lemma example_roles_c1: "{r. has_role (db example_world) (Some ''c1'') r} = {Citizen}"
proof -
  have "has_role (db example_world) (Some ''c1'') r = (r = Citizen)" for r
    by (cases r) (simp_all add: has_role_def example_world_def example_db_def)
  then show ?thesis by simp
qed

lemma example_roles_c2: "{r. has_role (db example_world) (Some ''c2'') r} = {Citizen, Officer}"
proof -
  have "has_role (db example_world) (Some ''c2'') r = (r = Citizen \<or> r = Officer)" for r
    by (cases r) (simp_all add: has_role_def example_world_def example_db_def)
  then show ?thesis by auto
qed

theorem checkAuth_routes_witness:
  "snd (checkAuth example_world (Some ''c1'')) = ''/citizen''
   \<and> snd (checkAuth example_world (Some ''c2'')) = ''/select-role''
   \<and> db (fst (checkAuth example_world (Some ''c2''))) = db example_world"
  using checkAuth_routes [OF example_not_lost example_roles_unique, of "''c1''"]
    checkAuth_routes [OF example_not_lost example_roles_unique, of "''c2''"]
  by (simp add: example_roles_c1 example_roles_c2)

text \<open>
  C6, at a user who holds the roles citizen and officer. The selector shows both cards.
  The officer and admin cards lead to their dashboards. The citizen card navigates to
  \<^verbatim>\<open>/\<close>, the route of \<open>Index\<close>, whose \<open>checkAuth\<close> sends this user to \<^verbatim>\<open>/select-role\<close>
  again; the citizen dashboard is at \<^verbatim>\<open>/citizen\<close>.
\<close>

theorem redirectToRole_citizen_reaches_selector_again:
  "fst (snd (checkUserRoles example_world (Some ''c2''))) = [''citizen'', ''officer'']
   \<and> snd (snd (checkUserRoles example_world (Some ''c2''))) = []
   \<and> redirectToRole ''citizen'' = Navigate ''/''
   \<and> App_routes ''/'' = Index
   \<and> snd (checkAuth (fst (checkUserRoles example_world (Some ''c2''))) (Some ''c2''))
       = ''/select-role''
   \<and> App_routes ''/citizen'' = CitizenDashboard
   \<and> redirectToRole ''officer'' = Navigate ''/officer''
   \<and> App_routes ''/officer'' = OfficerDashboard
   \<and> redirectToRole ''admin'' = Navigate ''/admin''
   \<and> App_routes ''/admin'' = AdminDashboard"
  by (simp add: checkUserRoles_def checkAuth_def auth_getUser_def from_user_roles_select_def
      attempt_def lost_def select_user_roles_def app_role_text_def redirectToRole_def
      App_routes_def example_world_def example_db_def)

section \<open>Submitting an application\<close>

lemma attempt_fst:
  "trace (fst (attempt w req res)) = trace w @ [(req, \<not> isl (snd (attempt w req res)))]"
  "uuid_gen (fst (attempt w req res)) = uuid_gen w"
  "uuid_ctr (fst (attempt w req res)) = uuid_ctr w"
  by (simp_all add: attempt_def split: sum.splits prod.splits)

lemma attempt_Inl: "snd (attempt w req res) = Inl e \<Longrightarrow> db (fst (attempt w req res)) = db w"
  by (simp add: attempt_def split: sum.splits prod.splits if_splits)

lemma attempt_Inr:
  "snd (attempt w req res) = Inr x \<Longrightarrow>
     \<exists>d'. res = Inr (d', x) \<and> db (fst (attempt w req res)) = d' \<and> \<not> lost w
          \<and> clock (fst (attempt w req res)) = Suc (clock w)"
  by (auto simp: attempt_def split: sum.splits prod.splits if_splits)

lemma attempt_insert_eq:
  "fst (attempt_insert w req ins) =
     (fst (attempt w req (ins (db w) (uuid_gen w (uuid_ctr w)) (clock w))))
       \<lparr>uuid_ctr := Suc (uuid_ctr w)\<rparr>"
  "snd (attempt_insert w req ins) =
     snd (attempt w req (ins (db w) (uuid_gen w (uuid_ctr w)) (clock w)))"
  by (simp_all add: attempt_insert_def split: prod.splits)

lemma attempt_insert_fst:
  "trace (fst (attempt_insert w req ins)) = trace w @ [(req, \<not> isl (snd (attempt_insert w req ins)))]"
  "uuid_gen (fst (attempt_insert w req ins)) = uuid_gen w"
  "uuid_ctr (fst (attempt_insert w req ins)) = Suc (uuid_ctr w)"
  by (simp_all add: attempt_insert_eq attempt_fst)

lemma attempt_insert_Inl:
  "snd (attempt_insert w req ins) = Inl e \<Longrightarrow> db (fst (attempt_insert w req ins)) = db w"
  by (simp add: attempt_insert_eq attempt_Inl)

lemma attempt_insert_Inr:
  "snd (attempt_insert w req ins) = Inr x \<Longrightarrow>
     ins (db w) (uuid_gen w (uuid_ctr w)) (clock w) = Inr (db (fst (attempt_insert w req ins)), x)"
  using attempt_Inr [of w req "ins (db w) (uuid_gen w (uuid_ctr w)) (clock w)" x]
  by (auto simp: attempt_insert_eq)

lemma storage_from_upload_fst:
  "trace (fst (storage_from_upload w s b n f))
     = trace w @ [(Storage_upload b n f, \<not> isl (snd (storage_from_upload w s b n f)))]"
  "uuid_gen (fst (storage_from_upload w s b n f)) = uuid_gen w"
  "uuid_ctr (fst (storage_from_upload w s b n f)) = uuid_ctr w"
  by (simp_all add: storage_from_upload_def attempt_fst)

lemma storage_from_upload_Inr:
  assumes "snd (storage_from_upload w s b n f) = Inr x"
  shows "db (fst (storage_from_upload w s b n f))
     = (db w)\<lparr>objects := objects (db w) @ [\<lparr>o_bucket_id = b, o_name = n, o_file = f\<rparr>]\<rparr>"
  using attempt_Inr [of w "Storage_upload b n f" "storage_upload (db w) s b n f" x] assms
  by (auto simp: storage_from_upload_def storage_upload_def Let_def split: if_splits)

lemma from_documents_insert_fst:
  "trace (fst (from_documents_insert w s ins))
     = trace w @ [(Insert_document ins, \<not> isl (snd (from_documents_insert w s ins)))]"
  "uuid_gen (fst (from_documents_insert w s ins)) = uuid_gen w"
  "uuid_ctr (fst (from_documents_insert w s ins)) = Suc (uuid_ctr w)"
  by (simp_all add: from_documents_insert_def attempt_insert_fst)

lemma from_documents_insert_Inr:
  assumes "snd (from_documents_insert w s ins) = Inr row"
  shows "db (fst (from_documents_insert w s ins)) = (db w)\<lparr>documents := documents (db w) @ [row]\<rparr>
     \<and> d_application_id row = di_application_id ins \<and> d_file_name row = di_file_name ins
     \<and> d_file_url row = di_file_url ins \<and> d_doc_type row = di_doc_type ins"
  using attempt_insert_Inr [of w "Insert_document ins"
      "\<lambda>d new_id now. insert_document d s new_id now ins" row] assms
  by (auto simp: from_documents_insert_def insert_document_def Let_def split: if_splits)

lemma upload_documents_Cons:
  "upload_documents w s g u a ((docType, f) # rest) =
     (let p1 = storage_from_upload w s ''application-documents'' (fileName_of u a docType f) f
      in if isl (snd p1) then (fst p1, Inl (projl (snd p1)))
         else let p2 = from_documents_insert (fst p1) s (document_of g u a docType f)
              in if isl (snd p2) then (fst p2, Inl (projl (snd p2)))
                 else upload_documents (fst p2) s g u a rest)"
  by (simp add: Let_def split: prod.splits sum.splits)

lemma document_requests_Cons:
  "document_requests g u a ((docType, f) # rest) =
     Storage_upload ''application-documents'' (fileName_of u a docType f) f
     # Insert_document (document_of g u a docType f)
     # document_requests g u a rest"
  by (simp add: document_requests_def)

lemma upload_documents_trace:
  "(isl (snd (upload_documents w s g u a files)) \<longrightarrow>
      (\<exists>pre r post. document_requests g u a files = pre @ r # post
         \<and> trace (fst (upload_documents w s g u a files))
             = trace w @ all_succeeded pre @ [(r, False)]))
   \<and> (\<not> isl (snd (upload_documents w s g u a files)) \<longrightarrow>
        trace (fst (upload_documents w s g u a files))
          = trace w @ all_succeeded (document_requests g u a files))"
proof (induction files arbitrary: w)
  case Nil
  show ?case by (simp add: document_requests_def all_succeeded_def)
next
  case (Cons df rest)
  obtain docType f where df: "df = (docType, f)" by (cases df)
  define U where "U = Storage_upload ''application-documents'' (fileName_of u a docType f) f"
  define D where "D = Insert_document (document_of g u a docType f)"
  define p1 where
    "p1 = storage_from_upload w s ''application-documents'' (fileName_of u a docType f) f"
  define p2 where "p2 = from_documents_insert (fst p1) s (document_of g u a docType f)"
  have reqs: "document_requests g u a (df # rest) = U # D # document_requests g u a rest"
    by (simp add: df document_requests_Cons U_def D_def)
  have t1: "trace (fst p1) = trace w @ [(U, \<not> isl (snd p1))]"
    by (simp add: p1_def U_def storage_from_upload_fst)
  have t2: "trace (fst p2) = trace (fst p1) @ [(D, \<not> isl (snd p2))]"
    by (simp add: p2_def D_def from_documents_insert_fst)
  have run: "upload_documents w s g u a (df # rest) =
      (if isl (snd p1) then (fst p1, Inl (projl (snd p1)))
       else if isl (snd p2) then (fst p2, Inl (projl (snd p2)))
       else upload_documents (fst p2) s g u a rest)"
    unfolding df upload_documents_Cons p1_def p2_def Let_def by (rule refl)
  show ?case
  proof (cases "isl (snd p1)")
    case True
    have "document_requests g u a (df # rest) = [] @ U # (D # document_requests g u a rest)"
      by (simp add: reqs)
    moreover have "trace (fst p1) = trace w @ all_succeeded [] @ [(U, False)]"
      using True by (simp add: t1 all_succeeded_def)
    ultimately show ?thesis
      unfolding run using True by (simp only: if_True fst_conv snd_conv sum.disc) blast
  next
    case False
    note ok1 = this
    show ?thesis
    proof (cases "isl (snd p2)")
      case True
      have "document_requests g u a (df # rest) = [U] @ D # document_requests g u a rest"
        by (simp add: reqs)
      moreover have "trace (fst p2) = trace w @ all_succeeded [U] @ [(D, False)]"
        using True ok1 by (simp add: t1 t2 all_succeeded_def)
      ultimately show ?thesis
        unfolding run using True ok1
        by (simp only: if_True if_False fst_conv snd_conv sum.disc) blast
    next
      case False
      have t: "trace (fst p2) = trace w @ [(U, True), (D, True)]"
        using False ok1 by (simp add: t1 t2)
      have run': "upload_documents w s g u a (df # rest) = upload_documents (fst p2) s g u a rest"
        unfolding run using False ok1 by simp
      show ?thesis
      proof (intro conjI impI)
        assume "isl (snd (upload_documents w s g u a (df # rest)))"
        then have "isl (snd (upload_documents (fst p2) s g u a rest))"
          by (simp add: run')
        with Cons.IH [of "fst p2"] obtain pre r post where
          pre: "document_requests g u a rest = pre @ r # post"
          and tr: "trace (fst (upload_documents (fst p2) s g u a rest))
             = trace (fst p2) @ all_succeeded pre @ [(r, False)]"
          by blast
        have "document_requests g u a (df # rest) = (U # D # pre) @ r # post"
          by (simp add: reqs pre)
        moreover have "trace (fst (upload_documents w s g u a (df # rest)))
             = trace w @ all_succeeded (U # D # pre) @ [(r, False)]"
          by (simp add: run' tr t all_succeeded_def)
        ultimately show "\<exists>pre r post. document_requests g u a (df # rest) = pre @ r # post
            \<and> trace (fst (upload_documents w s g u a (df # rest)))
                = trace w @ all_succeeded pre @ [(r, False)]"
          by blast
      next
        assume "\<not> isl (snd (upload_documents w s g u a (df # rest)))"
        then have "\<not> isl (snd (upload_documents (fst p2) s g u a rest))"
          by (simp add: run')
        with Cons.IH [of "fst p2"]
        have "trace (fst (upload_documents (fst p2) s g u a rest))
             = trace (fst p2) @ all_succeeded (document_requests g u a rest)"
          by blast
        then show "trace (fst (upload_documents w s g u a (df # rest)))
            = trace w @ all_succeeded (document_requests g u a (df # rest))"
          by (simp add: run' t reqs all_succeeded_def)
      qed
    qed
  qed
qed

lemma upload_documents_db:
  assumes "\<not> isl (snd (upload_documents w s g u a files))"
  shows "applications (db (fst (upload_documents w s g u a files))) = applications (db w)
     \<and> payments (db (fst (upload_documents w s g u a files))) = payments (db w)
     \<and> map (\<lambda>d. (d_application_id d, d_doc_type d, d_file_name d, d_file_url d))
          (documents (db (fst (upload_documents w s g u a files))))
        = map (\<lambda>d. (d_application_id d, d_doc_type d, d_file_name d, d_file_url d))
            (documents (db w))
          @ map (\<lambda>(docType, f). (a, docType, f_name f, g (fileName_of u a docType f))) files
     \<and> objects (db (fst (upload_documents w s g u a files)))
        = objects (db w)
          @ map (\<lambda>(docType, f). \<lparr>o_bucket_id = ''application-documents'',
                                    o_name = fileName_of u a docType f, o_file = f\<rparr>) files"
  using assms
proof (induction files arbitrary: w)
  case Nil
  show ?case by simp
next
  case (Cons df rest)
  obtain docType f where df: "df = (docType, f)" by (cases df)
  define p1 where
    "p1 = storage_from_upload w s ''application-documents'' (fileName_of u a docType f) f"
  define p2 where "p2 = from_documents_insert (fst p1) s (document_of g u a docType f)"
  have run: "upload_documents w s g u a (df # rest) =
      (if isl (snd p1) then (fst p1, Inl (projl (snd p1)))
       else if isl (snd p2) then (fst p2, Inl (projl (snd p2)))
       else upload_documents (fst p2) s g u a rest)"
    unfolding df upload_documents_Cons p1_def p2_def Let_def by (rule refl)
  from Cons.prems have ok1: "\<not> isl (snd p1)"
    unfolding run by (auto split: if_splits)
  from Cons.prems ok1 have ok2: "\<not> isl (snd p2)"
    unfolding run by (auto split: if_splits)
  have run': "upload_documents w s g u a (df # rest) = upload_documents (fst p2) s g u a rest"
    unfolding run using ok1 ok2 by simp
  from ok1 obtain x where x: "snd p1 = Inr x" by (cases "snd p1") auto
  from ok2 obtain row where row: "snd p2 = Inr row" by (cases "snd p2") auto
  have d1: "db (fst p1) = (db w)\<lparr>objects := objects (db w) @
      [\<lparr>o_bucket_id = ''application-documents'', o_name = fileName_of u a docType f,
        o_file = f\<rparr>]\<rparr>"
    using x unfolding p1_def by (rule storage_from_upload_Inr)
  have d2: "db (fst p2) = (db (fst p1))\<lparr>documents := documents (db (fst p1)) @ [row]\<rparr>
     \<and> d_application_id row = di_application_id (document_of g u a docType f)
     \<and> d_file_name row = di_file_name (document_of g u a docType f)
     \<and> d_file_url row = di_file_url (document_of g u a docType f)
     \<and> d_doc_type row = di_doc_type (document_of g u a docType f)"
    using row unfolding p2_def by (rule from_documents_insert_Inr)
  from Cons.prems have "\<not> isl (snd (upload_documents (fst p2) s g u a rest))"
    by (simp add: run')
  from Cons.IH [OF this] show ?case
    unfolding run' by (simp add: d1 d2 df document_of_def)
qed

lemma auth_getUser_facts:
  "trace (fst (auth_getUser w (Some u))) = trace w @ [(Auth_get_user, snd (auth_getUser w (Some u)) \<noteq> None)]"
  "uuid_gen (fst (auth_getUser w (Some u))) = uuid_gen w"
  "uuid_ctr (fst (auth_getUser w (Some u))) = uuid_ctr w"
  "db (fst (auth_getUser w (Some u))) = db w"
  "snd (auth_getUser w (Some u)) = None \<or> snd (auth_getUser w (Some u)) = Some u"
  by (simp_all add: auth_getUser_def attempt_def split: prod.splits sum.splits)

lemma from_applications_insert_fst:
  "trace (fst (from_applications_insert_select_single w s ins))
     = trace w @ [(Insert_application ins,
                   \<not> isl (snd (from_applications_insert_select_single w s ins)))]"
  "uuid_gen (fst (from_applications_insert_select_single w s ins)) = uuid_gen w"
  by (simp_all add: from_applications_insert_select_single_def attempt_insert_fst)

lemma from_applications_insert_Inr:
  assumes "snd (from_applications_insert_select_single w s ins) = Inr row"
  shows "db (fst (from_applications_insert_select_single w s ins))
       = (db w)\<lparr>applications := applications (db w) @ [row]\<rparr>
     \<and> a_id row = uuid_gen w (uuid_ctr w) \<and> a_citizen_id row = ai_citizen_id ins
     \<and> a_service_id row = ai_service_id ins
     \<and> application_status_of (ai_status ins) = Some (a_status row)
     \<and> a_completed_on row = None"
  using attempt_insert_Inr [of w "Insert_application ins"
      "\<lambda>d new_id now. case insert_application d s new_id now ins of
            Inl e \<Rightarrow> Inl e
          | Inr (d', row) \<Rightarrow>
              if applications_select_policy d' s row then Inr (d', row)
              else Inl Rls_violation" row] assms
  by (auto simp: from_applications_insert_select_single_def insert_application_def Let_def
      split: if_splits option.splits sum.splits)

lemma from_payments_insert_fst:
  "trace (fst (from_payments_insert w s ins))
     = trace w @ [(Insert_payment ins, \<not> isl (snd (from_payments_insert w s ins)))]"
  by (simp add: from_payments_insert_def attempt_insert_fst)

lemma from_payments_insert_Inr:
  assumes "snd (from_payments_insert w s ins) = Inr row"
  shows "db (fst (from_payments_insert w s ins)) = (db w)\<lparr>payments := payments (db w) @ [row]\<rparr>
     \<and> pay_application_id row = pi_application_id ins \<and> pay_amount row = pi_amount ins
     \<and> payment_status_of (pi_status ins) = Some (pay_status row)
     \<and> pay_payment_method row = pi_payment_method ins \<and> pay_paid_at row = pi_paid_at ins"
  using attempt_insert_Inr [of w "Insert_payment ins"
      "\<lambda>d new_id now. insert_payment d s new_id now ins" row] assms
  by (auto simp: from_payments_insert_def insert_payment_def Let_def
      split: if_splits option.splits)

lemma handleSubmit_run:
  assumes "\<forall>doc \<in> set (s_required_documents svc). map_of files doc \<noteq> None"
  shows "handleSubmit w (Some u) g now (Some svc) files =
     (let q0 = auth_getUser w (Some u)
      in if snd q0 = None
         then (fst q0, [Toast_failure (Js_error ''Not authenticated'') ''Failed to submit application''])
         else
           let q1 = from_applications_insert_select_single (fst q0) (Some u)
                      \<lparr>ai_citizen_id = u, ai_service_id = s_id svc, ai_status = ''pending''\<rparr>
           in if isl (snd q1)
              then (fst q1, [Toast_failure (projl (snd q1)) ''Failed to submit application''])
              else
                let q2 = upload_documents (fst q1) (Some u) g u (a_id (projr (snd q1))) files
                in if isl (snd q2)
                   then (fst q2, [Toast_failure (projl (snd q2)) ''Failed to submit application''])
                   else
                     let q3 = from_payments_insert (fst q2) (Some u)
                                \<lparr>pi_application_id = a_id (projr (snd q1)),
                                 pi_amount = s_fee svc, pi_status = ''completed'',
                                 pi_payment_method = Some ''mock'', pi_paid_at = Some now\<rparr>
                     in if isl (snd q3)
                        then (fst q3, [Toast_failure (projl (snd q3))
                                         ''Failed to submit application''])
                        else (fst q3, [Toast_success ''Application submitted successfully!'',
                                       Navigate ''/'']))"
proof -
  have none: "filter (\<lambda>doc. \<not> files_truthy files doc) (s_required_documents svc) = []"
    using assms by (auto simp: filter_empty_conv files_truthy_def split: option.splits)
  have u: "snd (auth_getUser w (Some u)) = None \<or> snd (auth_getUser w (Some u)) = Some u"
    by (rule auth_getUser_facts)
  show ?thesis
    using u
    by (auto simp: handleSubmit_def none Let_def split: prod.splits sum.splits option.splits)
qed

lemma split_on_not_Nil: "split_on c s \<noteq> []"
  by (induction s) (auto split: list.splits)

lemma split_on_prefix: "c \<notin> set u \<Longrightarrow> split_on c (u @ c # rest) = u # split_on c rest"
  by (induction u) (auto simp: split_on_not_Nil split: list.splits)

lemma last_split_on: "c \<notin> set (last (split_on c s))"
  by (induction s) (auto simp: split_on_not_Nil split: list.splits)

lemma append_sep_inj:
  assumes "d1 @ c # e1 = d2 @ c # e2" and "c \<notin> set e1" and "c \<notin> set e2"
  shows "d1 = d2"
proof -
  from assms(1) have "rev (d1 @ c # e1) = rev (d2 @ c # e2)" by simp
  then have eq: "rev e1 @ c # rev d1 = rev e2 @ c # rev d2" by simp
  have "takeWhile (\<lambda>x. x \<noteq> c) (rev e1 @ c # rev d1) = rev e1"
    using assms(2) by (auto simp: takeWhile_tail)
  moreover have "takeWhile (\<lambda>x. x \<noteq> c) (rev e2 @ c # rev d2) = rev e2"
    using assms(3) by (auto simp: takeWhile_tail)
  ultimately have "rev e1 = rev e2" using eq by simp
  with eq show ?thesis by simp
qed

lemma fileName_of_inj:
  assumes "fileName_of u a d1 f1 = fileName_of u a d2 f2"
  shows "d1 = d2"
proof -
  from assms have "d1 @ CHR ''.'' # last (split_on CHR ''.'' (f_name f1))
      = d2 @ CHR ''.'' # last (split_on CHR ''.'' (f_name f2))"
    by (simp add: fileName_of_def)
  then show ?thesis
    by (rule append_sep_inj) (rule last_split_on)+
qed

lemma upload_policy:
  assumes "CHR ''/'' \<notin> set u"
  shows "citizens_can_upload_documents_for_their_applications (Some u)
     \<lparr>o_bucket_id = ''application-documents'', o_name = fileName_of u a d f, o_file = f\<rparr>"
proof -
  have "fileName_of u a d f
      = u @ CHR ''/'' # (a @ ''/'' @ d @ ''.'' @ last (split_on CHR ''.'' (f_name f)))"
    by (simp add: fileName_of_def)
  then have "split_on CHR ''/'' (fileName_of u a d f)
      = u # split_on CHR ''/'' (a @ ''/'' @ d @ ''.'' @ last (split_on CHR ''.'' (f_name f)))"
    using split_on_prefix [OF assms] by simp
  then have "storage_foldername (fileName_of u a d f)
      = u # butlast (split_on CHR ''/'' (a @ ''/'' @ d @ ''.'' @ last (split_on CHR ''.'' (f_name f))))"
    by (simp add: storage_foldername_def split_on_not_Nil)
  then show ?thesis
    by (simp add: citizens_can_upload_documents_for_their_applications_def)
qed

lemma attempt_faults: "faults (fst (attempt w req res)) = tl (faults w)"
  by (simp add: attempt_def split: sum.splits prod.splits)

lemma attempt_isl: "\<not> lost w \<Longrightarrow> isl (snd (attempt w req res)) = isl res"
  by (simp add: attempt_def split: sum.splits prod.splits)

lemma attempt_insert_faults: "faults (fst (attempt_insert w req ins)) = tl (faults w)"
  by (simp add: attempt_insert_eq attempt_faults)

lemma no_faults:
  assumes "True \<notin> set (faults w)"
  shows "\<not> lost w" and "True \<notin> set (tl (faults w))"
  using assms by (cases "faults w"; simp add: lost_def)+

lemma auth_getUser_fst:
  "fst (auth_getUser w session)
     = fst (attempt w Auth_get_user
              (case session of None \<Rightarrow> Inl (Js_error ''Auth session missing!'')
                             | Some u \<Rightarrow> Inr (db w, u)))"
  by (simp add: auth_getUser_def split: prod.splits sum.splits)

lemma request_faults:
  "faults (fst (auth_getUser w session)) = tl (faults w)"
  "faults (fst (storage_from_upload w s b n f)) = tl (faults w)"
  "faults (fst (from_documents_insert w s di)) = tl (faults w)"
  "faults (fst (from_applications_insert_select_single w s ai)) = tl (faults w)"
  "faults (fst (from_payments_insert w s pi)) = tl (faults w)"
  by (simp_all add: auth_getUser_fst storage_from_upload_def from_documents_insert_def
      from_applications_insert_select_single_def from_payments_insert_def
      attempt_faults attempt_insert_faults)

lemma auth_getUser_succeeds: "\<not> lost w \<Longrightarrow> snd (auth_getUser w (Some u)) = Some u"
  by (simp add: auth_getUser_def attempt_def)

lemma own_application:
  assumes "list_ex (\<lambda>x. a_id x = a \<and> a_citizen_id x = u) (applications d)"
  shows "list_ex (\<lambda>x. a_id x = a \<and> Some (a_citizen_id x) = Some u) (select_applications d (Some u))"
    and "a \<in> set (map a_id (applications d))"
  using assms
  by (force simp: list_ex_iff select_applications_def applications_select_policy_def
      citizens_can_view_their_own_applications_def image_iff)+

lemma storage_from_upload_succeeds:
  assumes "\<not> lost w"
    and "citizens_can_upload_documents_for_their_applications s
           \<lparr>o_bucket_id = b, o_name = n, o_file = f\<rparr>"
    and "\<not> list_ex (\<lambda>x. o_bucket_id x = b \<and> o_name x = n) (objects (db w))"
  shows "\<not> isl (snd (storage_from_upload w s b n f))"
  using assms by (simp add: storage_from_upload_def attempt_isl storage_upload_def)

lemma from_documents_insert_succeeds:
  assumes "\<not> lost w"
    and "list_ex (\<lambda>x. a_id x = di_application_id ins \<and> a_citizen_id x = u) (applications (db w))"
    and "uuid_gen w (uuid_ctr w) \<notin> set (map d_id (documents (db w)))"
  shows "\<not> isl (snd (from_documents_insert w (Some u) ins))"
  using assms(1,3) own_application [OF assms(2)]
  by (simp add: from_documents_insert_def attempt_insert_eq attempt_isl insert_document_def
      citizens_can_insert_documents_for_their_applications_def Let_def)

lemma from_documents_insert_id:
  assumes "snd (from_documents_insert w s ins) = Inr row"
  shows "d_id row = uuid_gen w (uuid_ctr w)"
  using attempt_insert_Inr [of w "Insert_document ins"
      "\<lambda>d new_id now. insert_document d s new_id now ins" row] assms
  by (auto simp: from_documents_insert_def insert_document_def Let_def split: if_splits)

lemma from_applications_insert_succeeds:
  assumes "\<not> lost w"
    and "u \<in> set (map au_id (users (db w)))"
    and "sid \<in> set (map s_id (services (db w)))"
    and "uuid_gen w (uuid_ctr w) \<notin> set (map a_id (applications (db w)))"
  shows "\<not> isl (snd (from_applications_insert_select_single w (Some u)
      \<lparr>ai_citizen_id = u, ai_service_id = sid, ai_status = ''pending''\<rparr>))"
  using assms
  by (simp add: from_applications_insert_select_single_def attempt_insert_eq attempt_isl
      insert_application_def application_status_of_def citizens_can_create_applications_def
      applications_select_policy_def citizens_can_view_their_own_applications_def Let_def)

lemma from_payments_insert_succeeds:
  assumes "\<not> lost w"
    and "list_ex (\<lambda>x. a_id x = a \<and> a_citizen_id x = u) (applications (db w))"
    and "uuid_gen w (uuid_ctr w) \<notin> set (map pay_id (payments (db w)))"
  shows "\<not> isl (snd (from_payments_insert w (Some u)
      \<lparr>pi_application_id = a, pi_amount = amount, pi_status = ''completed'',
       pi_payment_method = m, pi_paid_at = t\<rparr>))"
  using assms(1,3) own_application [OF assms(2)]
  by (simp add: from_payments_insert_def attempt_insert_eq attempt_isl insert_payment_def
      payment_status_of_def citizens_can_create_payments_for_their_applications_def Let_def)

lemma upload_documents_succeeds:
  assumes "True \<notin> set (faults w)"
    and "list_ex (\<lambda>x. a_id x = a \<and> a_citizen_id x = u) (applications (db w))"
    and "inj (uuid_gen w)"
    and "\<forall>k\<ge>uuid_ctr w. uuid_gen w k \<notin> set (map d_id (documents (db w)))"
    and "CHR ''/'' \<notin> set u"
    and "distinct (map fst files)"
    and "\<forall>(d, f) \<in> set files.
           \<not> list_ex (\<lambda>x. o_bucket_id x = ''application-documents''
                            \<and> o_name x = fileName_of u a d f) (objects (db w))"
  shows "\<not> isl (snd (upload_documents w (Some u) g u a files))
     \<and> True \<notin> set (faults (fst (upload_documents w (Some u) g u a files)))
     \<and> uuid_ctr (fst (upload_documents w (Some u) g u a files)) = uuid_ctr w + length files
     \<and> uuid_gen (fst (upload_documents w (Some u) g u a files)) = uuid_gen w"
  using assms
proof (induction files arbitrary: w)
  case Nil
  then show ?case by simp
next
  case (Cons df rest)
  obtain docType f where df: "df = (docType, f)" by (cases df)
  define n where "n = fileName_of u a docType f"
  define p1 where "p1 = storage_from_upload w (Some u) ''application-documents'' n f"
  define p2 where "p2 = from_documents_insert (fst p1) (Some u) (document_of g u a docType f)"
  have run: "upload_documents w (Some u) g u a (df # rest) =
      (if isl (snd p1) then (fst p1, Inl (projl (snd p1)))
       else if isl (snd p2) then (fst p2, Inl (projl (snd p2)))
       else upload_documents (fst p2) (Some u) g u a rest)"
    unfolding df upload_documents_Cons p1_def p2_def n_def Let_def by (rule refl)
  note nf = no_faults [OF Cons.prems(1)]
  have free: "\<not> list_ex (\<lambda>x. o_bucket_id x = ''application-documents'' \<and> o_name x = n)
      (objects (db w))"
    using Cons.prems(7) by (simp add: df n_def)
  have ok1: "\<not> isl (snd p1)"
    unfolding p1_def n_def
    by (rule storage_from_upload_succeeds [OF nf(1) upload_policy [OF Cons.prems(5)]
          free [unfolded n_def]])
  then obtain x where x: "snd p1 = Inr x" by (cases "snd p1") auto
  have d1: "db (fst p1) = (db w)\<lparr>objects := objects (db w) @
      [\<lparr>o_bucket_id = ''application-documents'', o_name = n, o_file = f\<rparr>]\<rparr>"
    using x unfolding p1_def by (rule storage_from_upload_Inr)
  have w1: "faults (fst p1) = tl (faults w)" "uuid_gen (fst p1) = uuid_gen w"
    "uuid_ctr (fst p1) = uuid_ctr w"
    by (simp_all add: p1_def request_faults storage_from_upload_fst)
  have nf1: "True \<notin> set (faults (fst p1))"
    using nf(2) by (simp add: w1)
  have ok2: "\<not> isl (snd p2)"
    unfolding p2_def
  proof (rule from_documents_insert_succeeds)
    show "\<not> lost (fst p1)" by (rule no_faults(1) [OF nf1])
    show "list_ex (\<lambda>x. a_id x = di_application_id (document_of g u a docType f)
        \<and> a_citizen_id x = u) (applications (db (fst p1)))"
      using Cons.prems(2) by (simp add: d1 document_of_def)
    show "uuid_gen (fst p1) (uuid_ctr (fst p1)) \<notin> set (map d_id (documents (db (fst p1))))"
      using Cons.prems(4) by (simp add: w1 d1)
  qed
  then obtain row where row: "snd p2 = Inr row" by (cases "snd p2") auto
  have d2: "db (fst p2) = (db (fst p1))\<lparr>documents := documents (db (fst p1)) @ [row]\<rparr>"
    using from_documents_insert_Inr [OF row [unfolded p2_def]] by (simp add: p2_def)
  have id: "d_id row = uuid_gen w (uuid_ctr w)"
    using from_documents_insert_id [OF row [unfolded p2_def]] by (simp add: w1)
  have w2: "faults (fst p2) = tl (tl (faults w))" "uuid_gen (fst p2) = uuid_gen w"
    "uuid_ctr (fst p2) = Suc (uuid_ctr w)"
    by (simp_all add: p2_def request_faults from_documents_insert_fst w1)
  have run': "upload_documents w (Some u) g u a (df # rest)
      = upload_documents (fst p2) (Some u) g u a rest"
    unfolding run using ok1 ok2 by simp
  have "\<not> isl (snd (upload_documents (fst p2) (Some u) g u a rest))
     \<and> True \<notin> set (faults (fst (upload_documents (fst p2) (Some u) g u a rest)))
     \<and> uuid_ctr (fst (upload_documents (fst p2) (Some u) g u a rest))
         = uuid_ctr (fst p2) + length rest
     \<and> uuid_gen (fst (upload_documents (fst p2) (Some u) g u a rest)) = uuid_gen (fst p2)"
  proof (rule Cons.IH)
    show "True \<notin> set (faults (fst p2))"
      using no_faults(2) [OF nf1] by (simp add: w1 w2)
    show "list_ex (\<lambda>x. a_id x = a \<and> a_citizen_id x = u) (applications (db (fst p2)))"
      using Cons.prems(2) by (simp add: d2 d1)
    show "inj (uuid_gen (fst p2))"
      using Cons.prems(3) by (simp add: w2)
    show "\<forall>k\<ge>uuid_ctr (fst p2). uuid_gen (fst p2) k \<notin> set (map d_id (documents (db (fst p2))))"
    proof (intro allI impI)
      fix k assume k: "uuid_ctr (fst p2) \<le> k"
      then have "uuid_ctr w \<le> k" "k \<noteq> uuid_ctr w" by (simp_all add: w2)
      with Cons.prems(3,4) have "uuid_gen w k \<notin> set (map d_id (documents (db w)))"
        "uuid_gen w k \<noteq> uuid_gen w (uuid_ctr w)"
        by (auto dest: injD)
      then show "uuid_gen (fst p2) k \<notin> set (map d_id (documents (db (fst p2))))"
        by (simp add: w2 d2 d1 id)
    qed
    show "CHR ''/'' \<notin> set u" by (rule Cons.prems(5))
    show "distinct (map fst rest)" using Cons.prems(6) by simp
    show "\<forall>(d, f) \<in> set rest.
           \<not> list_ex (\<lambda>x. o_bucket_id x = ''application-documents''
                            \<and> o_name x = fileName_of u a d f) (objects (db (fst p2)))"
    proof (clarify)
      fix d f' assume m: "(d, f') \<in> set rest"
        and ex: "list_ex (\<lambda>x. o_bucket_id x = ''application-documents''
                            \<and> o_name x = fileName_of u a d f') (objects (db (fst p2)))"
      from m Cons.prems(7) have old: "\<not> list_ex (\<lambda>x. o_bucket_id x = ''application-documents''
                            \<and> o_name x = fileName_of u a d f') (objects (db w))"
        by auto
      from m Cons.prems(6) have "d \<noteq> docType"
        by (force simp: df)
      then have "fileName_of u a d f' \<noteq> n"
        unfolding n_def using fileName_of_inj by blast
      with ex old show False
        by (auto simp: d2 d1)
    qed
  qed
  then show ?case
    unfolding run' by (simp add: w2)
qed

lemma from_applications_insert_ctr:
  "uuid_ctr (fst (from_applications_insert_select_single w s ins)) = Suc (uuid_ctr w)"
  by (simp add: from_applications_insert_select_single_def attempt_insert_fst)

lemma handleSubmit_succeeds:
  assumes "\<forall>doc \<in> set (s_required_documents svc). map_of files doc \<noteq> None"
    and "True \<notin> set (faults w)"
    and "user_id \<in> set (map au_id (users (db w)))"
    and "s_id svc \<in> set (map s_id (services (db w)))"
    and "inj (uuid_gen w)"
    and "\<forall>k\<ge>uuid_ctr w.
           uuid_gen w k \<notin> set (map a_id (applications (db w)))
           \<and> uuid_gen w k \<notin> set (map d_id (documents (db w)))
           \<and> uuid_gen w k \<notin> set (map pay_id (payments (db w)))"
    and "CHR ''/'' \<notin> set user_id"
    and "distinct (map fst files)"
    and "\<forall>(d, f) \<in> set files.
           \<not> list_ex (\<lambda>x. o_bucket_id x = ''application-documents''
                            \<and> o_name x = fileName_of user_id (uuid_gen w (uuid_ctr w)) d f)
                 (objects (db w))"
  shows "snd (handleSubmit w (Some user_id) getPublicUrl now (Some svc) files)
     = [Toast_success ''Application submitted successfully!'', Navigate ''/'']"
proof -
  define aid where "aid = uuid_gen w (uuid_ctr w)"
  define q0 where "q0 = auth_getUser w (Some user_id)"
  define q1 where "q1 = from_applications_insert_select_single (fst q0) (Some user_id)
      \<lparr>ai_citizen_id = user_id, ai_service_id = s_id svc, ai_status = ''pending''\<rparr>"
  define q2 where "q2 = upload_documents (fst q1) (Some user_id) getPublicUrl user_id
      (a_id (projr (snd q1))) files"
  define q3 where "q3 = from_payments_insert (fst q2) (Some user_id)
      \<lparr>pi_application_id = a_id (projr (snd q1)), pi_amount = s_fee svc,
       pi_status = ''completed'', pi_payment_method = Some ''mock'', pi_paid_at = Some now\<rparr>"
  have run: "handleSubmit w (Some user_id) getPublicUrl now (Some svc) files =
     (if snd q0 = None
      then (fst q0, [Toast_failure (Js_error ''Not authenticated'') ''Failed to submit application''])
      else if isl (snd q1)
      then (fst q1, [Toast_failure (projl (snd q1)) ''Failed to submit application''])
      else if isl (snd q2)
      then (fst q2, [Toast_failure (projl (snd q2)) ''Failed to submit application''])
      else if isl (snd q3)
      then (fst q3, [Toast_failure (projl (snd q3)) ''Failed to submit application''])
      else (fst q3, [Toast_success ''Application submitted successfully!'', Navigate ''/'']))"
    unfolding handleSubmit_run [OF assms(1)] Let_def q0_def q1_def q2_def q3_def
    by (rule refl)
  note nf = no_faults [OF assms(2)]
  have ok0: "(snd q0 = None) = False"
    by (simp add: q0_def auth_getUser_succeeds [OF nf(1)])
  have w0: "faults (fst q0) = tl (faults w)" "uuid_gen (fst q0) = uuid_gen w"
    "uuid_ctr (fst q0) = uuid_ctr w" "db (fst q0) = db w"
    by (simp_all add: q0_def request_faults auth_getUser_facts)
  have nf0: "True \<notin> set (faults (fst q0))"
    using nf(2) by (simp add: w0)
  note nf0' = no_faults [OF nf0]
  have ok1: "\<not> isl (snd q1)"
    unfolding q1_def
  proof (rule from_applications_insert_succeeds)
    show "\<not> lost (fst q0)" by (rule nf0')
    show "user_id \<in> set (map au_id (users (db (fst q0))))"
      using assms(3) by (simp add: w0)
    show "s_id svc \<in> set (map s_id (services (db (fst q0))))"
      using assms(4) by (simp add: w0)
    show "uuid_gen (fst q0) (uuid_ctr (fst q0)) \<notin> set (map a_id (applications (db (fst q0))))"
      using assms(6) by (simp add: w0)
  qed
  then obtain row where row: "snd q1 = Inr row" by (cases "snd q1") auto
  have r1: "db (fst q1) = (db w)\<lparr>applications := applications (db w) @ [row]\<rparr>"
    "a_id row = aid" "a_citizen_id row = user_id"
    using from_applications_insert_Inr [OF row [unfolded q1_def]]
    by (simp_all add: q1_def w0 aid_def)
  have w1: "faults (fst q1) = tl (faults (fst q0))" "uuid_gen (fst q1) = uuid_gen w"
    "uuid_ctr (fst q1) = Suc (uuid_ctr w)"
    by (simp_all add: q1_def request_faults from_applications_insert_fst
        from_applications_insert_ctr w0)
  have nf1: "True \<notin> set (faults (fst q1))"
    using nf0'(2) by (simp add: w1)
  have q2: "q2 = upload_documents (fst q1) (Some user_id) getPublicUrl user_id aid files"
    by (simp add: q2_def row r1)
  have up: "\<not> isl (snd q2)
     \<and> True \<notin> set (faults (fst q2))
     \<and> uuid_ctr (fst q2) = uuid_ctr (fst q1) + length files
     \<and> uuid_gen (fst q2) = uuid_gen (fst q1)"
    unfolding q2
  proof (rule upload_documents_succeeds)
    show "True \<notin> set (faults (fst q1))" by (rule nf1)
    show "list_ex (\<lambda>x. a_id x = aid \<and> a_citizen_id x = user_id) (applications (db (fst q1)))"
      by (simp add: r1)
    show "inj (uuid_gen (fst q1))" using assms(5) by (simp add: w1)
    show "\<forall>k\<ge>uuid_ctr (fst q1). uuid_gen (fst q1) k \<notin> set (map d_id (documents (db (fst q1))))"
      using assms(6) by (simp add: w1 r1)
    show "CHR ''/'' \<notin> set user_id" by (rule assms(7))
    show "distinct (map fst files)" by (rule assms(8))
    show "\<forall>(d, f) \<in> set files.
           \<not> list_ex (\<lambda>x. o_bucket_id x = ''application-documents''
                            \<and> o_name x = fileName_of user_id aid d f) (objects (db (fst q1)))"
      using assms(9) by (simp add: r1 aid_def)
  qed
  then have ok2: "\<not> isl (snd q2)" by simp
  have d2: "applications (db (fst q2)) = applications (db (fst q1))"
    "payments (db (fst q2)) = payments (db (fst q1))"
    using upload_documents_db [OF ok2 [unfolded q2]] by (simp_all add: q2)
  have ok3: "\<not> isl (snd q3)"
    unfolding q3_def
  proof (rule from_payments_insert_succeeds)
    show "\<not> lost (fst q2)" using up by (intro no_faults(1)) simp
    show "list_ex (\<lambda>x. a_id x = a_id (projr (snd q1)) \<and> a_citizen_id x = user_id)
        (applications (db (fst q2)))"
      by (simp add: d2 r1 row)
    show "uuid_gen (fst q2) (uuid_ctr (fst q2)) \<notin> set (map pay_id (payments (db (fst q2))))"
      using assms(6) up by (simp add: d2 r1 w1)
  qed
  show ?thesis
    using ok1 ok2 ok3 by (simp add: run ok0)
qed

text \<open>
  C2. With a file for every required label (every required label is then an entry of
  \<^verbatim>\<open>files\<close>), a submission by \<open>user_id\<close> either succeeds or stops at its first failing
  request. When it succeeds, every request of \<open>submission_requests\<close> was issued, in that
  order, and succeeded: the application row is new, \<^verbatim>\<open>pending\<close> and the caller's; each
  entry of \<^verbatim>\<open>files\<close> is stored in the bucket \<^verbatim>\<open>application-documents\<close> under
  \<^verbatim>\<open>{user_id}/{application_id}/{doc_type}.{ext}\<close> and has one document row with the URL
  of that name; one payment row is \<^verbatim>\<open>completed\<close> with the service's fee. When it fails,
  the requests before the failing one succeeded and none after it was issued. It
  succeeds whenever no request is lost and the database has nothing to refuse: the
  user and the service exist, the generated identifiers are new, the user's identifier
  has no \<^verbatim>\<open>/\<close>, and the bucket holds no object of these names.
\<close>

theorem handleSubmit_writes_in_order:
  assumes "\<forall>doc \<in> set (s_required_documents svc). map_of files doc \<noteq> None"
  shows "set (s_required_documents svc) \<subseteq> fst ` set files
     \<and> (let application_id = uuid_gen w (uuid_ctr w);
             reqs = submission_requests getPublicUrl now user_id application_id svc files;
             w' = fst (handleSubmit w (Some user_id) getPublicUrl now (Some svc) files);
             events = snd (handleSubmit w (Some user_id) getPublicUrl now (Some svc) files)
         in ((events = [Toast_success ''Application submitted successfully!'', Navigate ''/'']
             \<and> trace w' = trace w @ all_succeeded reqs
             \<and> (\<exists>row. applications (db w') = applications (db w) @ [row]
                   \<and> a_id row = application_id \<and> a_citizen_id row = user_id
                   \<and> a_service_id row = s_id svc \<and> a_status row = Pending
                   \<and> a_completed_on row = None)
             \<and> map (\<lambda>d. (d_application_id d, d_doc_type d, d_file_name d, d_file_url d))
                  (documents (db w'))
                = map (\<lambda>d. (d_application_id d, d_doc_type d, d_file_name d, d_file_url d))
                    (documents (db w))
                  @ map (\<lambda>(docType, f).
                           (application_id, docType, f_name f,
                            getPublicUrl (fileName_of user_id application_id docType f)))
                      files
             \<and> objects (db w')
                = objects (db w)
                  @ map (\<lambda>(docType, f).
                           \<lparr>o_bucket_id = ''application-documents'',
                            o_name = fileName_of user_id application_id docType f,
                            o_file = f\<rparr>)
                      files
             \<and> (\<exists>p. payments (db w') = payments (db w) @ [p]
                   \<and> pay_application_id p = application_id \<and> pay_amount p = s_fee svc
                   \<and> pay_status p = Payment_completed \<and> pay_payment_method p = Some ''mock''
                   \<and> pay_paid_at p = Some now))
             \<or> (\<exists>e entries. events = [Toast_failure e ''Failed to submit application'']
                   \<and> trace w' = trace w @ entries \<and> stopped_in reqs entries))
            \<and> (True \<notin> set (faults w)
                 \<and> user_id \<in> set (map au_id (users (db w)))
                 \<and> s_id svc \<in> set (map s_id (services (db w)))
                 \<and> inj (uuid_gen w)
                 \<and> (\<forall>k\<ge>uuid_ctr w.
                        uuid_gen w k \<notin> set (map a_id (applications (db w)))
                        \<and> uuid_gen w k \<notin> set (map d_id (documents (db w)))
                        \<and> uuid_gen w k \<notin> set (map pay_id (payments (db w))))
                 \<and> CHR ''/'' \<notin> set user_id
                 \<and> distinct (map fst files)
                 \<and> (\<forall>(d, f) \<in> set files.
                        \<not> list_ex (\<lambda>x. o_bucket_id x = ''application-documents''
                                         \<and> o_name x = fileName_of user_id application_id d f)
                              (objects (db w)))
                 \<longrightarrow> events = [Toast_success ''Application submitted successfully!'',
                                Navigate ''/'']))"
proof -
  define aid where "aid = uuid_gen w (uuid_ctr w)"
  define A where "A = Auth_get_user"
  define I where "I = Insert_application
      \<lparr>ai_citizen_id = user_id, ai_service_id = s_id svc, ai_status = ''pending''\<rparr>"
  define P where "P = Insert_payment
      \<lparr>pi_application_id = aid, pi_amount = s_fee svc, pi_status = ''completed'',
       pi_payment_method = Some ''mock'', pi_paid_at = Some now\<rparr>"
  define DR where "DR = document_requests getPublicUrl user_id aid files"
  define reqs where "reqs = submission_requests getPublicUrl now user_id aid svc files"
  have reqs: "reqs = A # I # DR @ [P]"
    by (simp add: reqs_def submission_requests_def A_def I_def P_def DR_def)
  define q0 where "q0 = auth_getUser w (Some user_id)"
  define q1 where "q1 = from_applications_insert_select_single (fst q0) (Some user_id)
      \<lparr>ai_citizen_id = user_id, ai_service_id = s_id svc, ai_status = ''pending''\<rparr>"
  define q2 where "q2 = upload_documents (fst q1) (Some user_id) getPublicUrl user_id
      (a_id (projr (snd q1))) files"
  define q3 where "q3 = from_payments_insert (fst q2) (Some user_id)
      \<lparr>pi_application_id = a_id (projr (snd q1)), pi_amount = s_fee svc,
       pi_status = ''completed'', pi_payment_method = Some ''mock'', pi_paid_at = Some now\<rparr>"
  define H where "H = handleSubmit w (Some user_id) getPublicUrl now (Some svc) files"
  have run: "H =
     (if snd q0 = None
      then (fst q0, [Toast_failure (Js_error ''Not authenticated'') ''Failed to submit application''])
      else if isl (snd q1)
      then (fst q1, [Toast_failure (projl (snd q1)) ''Failed to submit application''])
      else if isl (snd q2)
      then (fst q2, [Toast_failure (projl (snd q2)) ''Failed to submit application''])
      else if isl (snd q3)
      then (fst q3, [Toast_failure (projl (snd q3)) ''Failed to submit application''])
      else (fst q3, [Toast_success ''Application submitted successfully!'', Navigate ''/'']))"
    unfolding H_def handleSubmit_run [OF assms] Let_def q0_def q1_def q2_def q3_def
    by (rule refl)
  have t0: "trace (fst q0) = trace w @ [(A, snd q0 \<noteq> None)]"
    by (simp add: q0_def A_def auth_getUser_facts)
  have g0: "uuid_gen (fst q0) (uuid_ctr (fst q0)) = aid" "db (fst q0) = db w"
    by (simp_all add: q0_def aid_def auth_getUser_facts)
  have t1: "trace (fst q1) = trace (fst q0) @ [(I, \<not> isl (snd q1))]"
    by (simp add: q1_def I_def from_applications_insert_fst)
  have t3: "trace (fst q3) = trace (fst q2) @
      [(Insert_payment \<lparr>pi_application_id = a_id (projr (snd q1)), pi_amount = s_fee svc,
          pi_status = ''completed'', pi_payment_method = Some ''mock'', pi_paid_at = Some now\<rparr>,
        \<not> isl (snd q3))]"
    by (simp add: q3_def from_payments_insert_fst)
  have main: "(snd H = [Toast_success ''Application submitted successfully!'', Navigate ''/'']
             \<and> trace (fst H) = trace w @ all_succeeded reqs
             \<and> (\<exists>row. applications (db (fst H)) = applications (db w) @ [row]
                   \<and> a_id row = aid \<and> a_citizen_id row = user_id
                   \<and> a_service_id row = s_id svc \<and> a_status row = Pending
                   \<and> a_completed_on row = None)
             \<and> map (\<lambda>d. (d_application_id d, d_doc_type d, d_file_name d, d_file_url d))
                  (documents (db (fst H)))
                = map (\<lambda>d. (d_application_id d, d_doc_type d, d_file_name d, d_file_url d))
                    (documents (db w))
                  @ map (\<lambda>(docType, f).
                           (aid, docType, f_name f,
                            getPublicUrl (fileName_of user_id aid docType f)))
                      files
             \<and> objects (db (fst H))
                = objects (db w)
                  @ map (\<lambda>(docType, f).
                           \<lparr>o_bucket_id = ''application-documents'',
                            o_name = fileName_of user_id aid docType f, o_file = f\<rparr>)
                      files
             \<and> (\<exists>p. payments (db (fst H)) = payments (db w) @ [p]
                   \<and> pay_application_id p = aid \<and> pay_amount p = s_fee svc
                   \<and> pay_status p = Payment_completed \<and> pay_payment_method p = Some ''mock''
                   \<and> pay_paid_at p = Some now))
            \<or> (\<exists>e entries. snd H = [Toast_failure e ''Failed to submit application'']
                  \<and> trace (fst H) = trace w @ entries \<and> stopped_in reqs entries)"
  proof (cases "snd q0 = None")
    case True
    have "reqs = [] @ A # (I # DR @ [P])" by (simp add: reqs)
    moreover have "[(A, False)] = all_succeeded [] @ [(A, False)]"
      by (simp add: all_succeeded_def)
    ultimately have "stopped_in reqs [(A, False)]"
      unfolding stopped_in_def by blast
    moreover have "trace (fst H) = trace w @ [(A, False)]"
      using True by (simp add: run t0)
    moreover have "snd H = [Toast_failure (Js_error ''Not authenticated'') ''Failed to submit application'']"
      using True by (simp add: run)
    ultimately show ?thesis by blast
  next
    case False
    then have ok0: "(snd q0 = None) = False" by simp
    have t0': "trace (fst q0) = trace w @ [(A, True)]"
      by (simp add: t0 ok0)
    show ?thesis
    proof (cases "isl (snd q1)")
      case True
      have "reqs = [A] @ I # (DR @ [P])" by (simp add: reqs)
      moreover have "[(A, True), (I, False)] = all_succeeded [A] @ [(I, False)]"
        by (simp add: all_succeeded_def)
      ultimately have "stopped_in reqs [(A, True), (I, False)]"
        unfolding stopped_in_def by blast
      moreover have "trace (fst H) = trace w @ [(A, True), (I, False)]"
        using True by (simp add: run ok0 t0' t1)
      moreover have "snd H = [Toast_failure (projl (snd q1)) ''Failed to submit application'']"
        using True by (simp add: run ok0)
      ultimately show ?thesis by blast
    next
      case False
      note ok1 = this
      then obtain row where row: "snd q1 = Inr row" by (cases "snd q1") auto
      have r1: "db (fst q1) = (db (fst q0))\<lparr>applications := applications (db (fst q0)) @ [row]\<rparr>
         \<and> a_id row = uuid_gen (fst q0) (uuid_ctr (fst q0))
         \<and> a_citizen_id row = ai_citizen_id
              \<lparr>ai_citizen_id = user_id, ai_service_id = s_id svc, ai_status = ''pending''\<rparr>
         \<and> a_service_id row = ai_service_id
              \<lparr>ai_citizen_id = user_id, ai_service_id = s_id svc, ai_status = ''pending''\<rparr>
         \<and> application_status_of (ai_status
              \<lparr>ai_citizen_id = user_id, ai_service_id = s_id svc, ai_status = ''pending''\<rparr>)
             = Some (a_status row)
         \<and> a_completed_on row = None"
        using row unfolding q1_def by (rule from_applications_insert_Inr)
      have aid: "a_id (projr (snd q1)) = aid"
        using r1 by (simp add: row g0)
      have pend: "a_status row = Pending"
        using r1 by (simp add: application_status_of_def)
      have t1': "trace (fst q1) = trace w @ [(A, True), (I, True)]"
        using ok1 by (simp add: t0' t1)
      have q2: "q2 = upload_documents (fst q1) (Some user_id) getPublicUrl user_id aid files"
        by (simp add: q2_def aid)
      note ut = upload_documents_trace [of "fst q1" "Some user_id" getPublicUrl user_id aid files,
          folded q2 DR_def]
      show ?thesis
      proof (cases "isl (snd q2)")
        case True
        with ut obtain pre r post where pre: "DR = pre @ r # post"
          and tr: "trace (fst q2) = trace (fst q1) @ all_succeeded pre @ [(r, False)]"
          by blast
        have "reqs = (A # I # pre) @ r # (post @ [P])" by (simp add: reqs pre)
        moreover have "[(A, True), (I, True)] @ all_succeeded pre @ [(r, False)]
            = all_succeeded (A # I # pre) @ [(r, False)]"
          by (simp add: all_succeeded_def)
        ultimately have "stopped_in reqs ([(A, True), (I, True)] @ all_succeeded pre @ [(r, False)])"
          unfolding stopped_in_def by blast
        moreover have "trace (fst H) = trace w @ [(A, True), (I, True)] @ all_succeeded pre @ [(r, False)]"
          using True ok1 by (simp add: run ok0 tr t1')
        moreover have "snd H = [Toast_failure (projl (snd q2)) ''Failed to submit application'']"
          using True ok1 by (simp add: run ok0)
        ultimately show ?thesis by blast
      next
        case False
        note ok2 = this
        with ut have t2: "trace (fst q2) = trace (fst q1) @ all_succeeded DR"
          by blast
        have d2: "applications (db (fst q2)) = applications (db (fst q1))
           \<and> payments (db (fst q2)) = payments (db (fst q1))
           \<and> map (\<lambda>d. (d_application_id d, d_doc_type d, d_file_name d, d_file_url d))
                (documents (db (fst q2)))
              = map (\<lambda>d. (d_application_id d, d_doc_type d, d_file_name d, d_file_url d))
                  (documents (db (fst q1)))
                @ map (\<lambda>(docType, f). (aid, docType, f_name f,
                         getPublicUrl (fileName_of user_id aid docType f))) files
           \<and> objects (db (fst q2))
              = objects (db (fst q1))
                @ map (\<lambda>(docType, f). \<lparr>o_bucket_id = ''application-documents'',
                         o_name = fileName_of user_id aid docType f, o_file = f\<rparr>) files"
          using ok2 unfolding q2 by (rule upload_documents_db)
        have t3': "trace (fst q3) = trace (fst q2) @ [(P, \<not> isl (snd q3))]"
          by (simp add: t3 aid P_def)
        show ?thesis
        proof (cases "isl (snd q3)")
          case True
          have "reqs = (A # I # DR) @ P # []" by (simp add: reqs)
          moreover have "[(A, True), (I, True)] @ all_succeeded DR @ [(P, False)]
              = all_succeeded (A # I # DR) @ [(P, False)]"
            by (simp add: all_succeeded_def)
          ultimately have "stopped_in reqs ([(A, True), (I, True)] @ all_succeeded DR @ [(P, False)])"
            unfolding stopped_in_def by blast
          moreover have "trace (fst H) = trace w @ [(A, True), (I, True)] @ all_succeeded DR @ [(P, False)]"
            using True ok1 ok2 by (simp add: run ok0 t3' t2 t1')
          moreover have "snd H = [Toast_failure (projl (snd q3)) ''Failed to submit application'']"
            using True ok1 ok2 by (simp add: run ok0)
          ultimately show ?thesis by blast
        next
          case False
          then obtain p where p: "snd q3 = Inr p" by (cases "snd q3") auto
          have r3: "db (fst q3) = (db (fst q2))\<lparr>payments := payments (db (fst q2)) @ [p]\<rparr>
             \<and> pay_application_id p = pi_application_id
                  \<lparr>pi_application_id = a_id (projr (snd q1)), pi_amount = s_fee svc,
                   pi_status = ''completed'', pi_payment_method = Some ''mock'',
                   pi_paid_at = Some now\<rparr>
             \<and> pay_amount p = pi_amount
                  \<lparr>pi_application_id = a_id (projr (snd q1)), pi_amount = s_fee svc,
                   pi_status = ''completed'', pi_payment_method = Some ''mock'',
                   pi_paid_at = Some now\<rparr>
             \<and> payment_status_of (pi_status
                  \<lparr>pi_application_id = a_id (projr (snd q1)), pi_amount = s_fee svc,
                   pi_status = ''completed'', pi_payment_method = Some ''mock'',
                   pi_paid_at = Some now\<rparr>) = Some (pay_status p)
             \<and> pay_payment_method p = pi_payment_method
                  \<lparr>pi_application_id = a_id (projr (snd q1)), pi_amount = s_fee svc,
                   pi_status = ''completed'', pi_payment_method = Some ''mock'',
                   pi_paid_at = Some now\<rparr>
             \<and> pay_paid_at p = pi_paid_at
                  \<lparr>pi_application_id = a_id (projr (snd q1)), pi_amount = s_fee svc,
                   pi_status = ''completed'', pi_payment_method = Some ''mock'',
                   pi_paid_at = Some now\<rparr>"
            using p unfolding q3_def by (rule from_payments_insert_Inr)
          have fin: "H = (fst q3, [Toast_success ''Application submitted successfully!'', Navigate ''/''])"
            using False ok1 ok2 by (simp add: run ok0)
          have e1: "snd H = [Toast_success ''Application submitted successfully!'', Navigate ''/'']"
            by (simp add: fin)
          have e2: "trace (fst H) = trace w @ all_succeeded reqs"
            using False by (simp add: fin t3' t2 t1' reqs all_succeeded_def)
          have e3: "applications (db (fst H)) = applications (db w) @ [row]
                   \<and> a_id row = aid \<and> a_citizen_id row = user_id
                   \<and> a_service_id row = s_id svc \<and> a_status row = Pending
                   \<and> a_completed_on row = None"
            using r1 r3 d2 pend by (simp add: fin g0)
          have e4: "map (\<lambda>d. (d_application_id d, d_doc_type d, d_file_name d, d_file_url d))
                  (documents (db (fst H)))
                = map (\<lambda>d. (d_application_id d, d_doc_type d, d_file_name d, d_file_url d))
                    (documents (db w))
                  @ map (\<lambda>(docType, f).
                           (aid, docType, f_name f,
                            getPublicUrl (fileName_of user_id aid docType f)))
                      files"
            using r1 r3 d2 by (simp add: fin g0)
          have e5: "payments (db (fst H)) = payments (db w) @ [p]
                   \<and> pay_application_id p = aid \<and> pay_amount p = s_fee svc
                   \<and> pay_status p = Payment_completed \<and> pay_payment_method p = Some ''mock''
                   \<and> pay_paid_at p = Some now"
            using r1 r3 d2 by (simp add: fin g0 aid payment_status_of_def)
          have e6: "objects (db (fst H))
                = objects (db w)
                  @ map (\<lambda>(docType, f).
                           \<lparr>o_bucket_id = ''application-documents'',
                            o_name = fileName_of user_id aid docType f, o_file = f\<rparr>)
                      files"
            using r1 r3 d2 by (simp add: fin g0)
          from e1 e2 e3 e4 e6 e5 show ?thesis by blast
        qed
      qed
    qed
  qed
  have cover: "set (s_required_documents svc) \<subseteq> fst ` set files"
  proof
    fix doc assume "doc \<in> set (s_required_documents svc)"
    with assms obtain f where "map_of files doc = Some f" by auto
    then have "(doc, f) \<in> set files" by (rule map_of_SomeD)
    then show "doc \<in> fst ` set files" by force
  qed
  have succeeds: "True \<notin> set (faults w)
       \<and> user_id \<in> set (map au_id (users (db w)))
       \<and> s_id svc \<in> set (map s_id (services (db w)))
       \<and> inj (uuid_gen w)
       \<and> (\<forall>k\<ge>uuid_ctr w.
              uuid_gen w k \<notin> set (map a_id (applications (db w)))
              \<and> uuid_gen w k \<notin> set (map d_id (documents (db w)))
              \<and> uuid_gen w k \<notin> set (map pay_id (payments (db w))))
       \<and> CHR ''/'' \<notin> set user_id
       \<and> distinct (map fst files)
       \<and> (\<forall>(d, f) \<in> set files.
              \<not> list_ex (\<lambda>x. o_bucket_id x = ''application-documents''
                               \<and> o_name x = fileName_of user_id aid d f)
                    (objects (db w)))
       \<longrightarrow> snd H = [Toast_success ''Application submitted successfully!'', Navigate ''/'']"
  proof
    assume c: "True \<notin> set (faults w)
       \<and> user_id \<in> set (map au_id (users (db w)))
       \<and> s_id svc \<in> set (map s_id (services (db w)))
       \<and> inj (uuid_gen w)
       \<and> (\<forall>k\<ge>uuid_ctr w.
              uuid_gen w k \<notin> set (map a_id (applications (db w)))
              \<and> uuid_gen w k \<notin> set (map d_id (documents (db w)))
              \<and> uuid_gen w k \<notin> set (map pay_id (payments (db w))))
       \<and> CHR ''/'' \<notin> set user_id
       \<and> distinct (map fst files)
       \<and> (\<forall>(d, f) \<in> set files.
              \<not> list_ex (\<lambda>x. o_bucket_id x = ''application-documents''
                               \<and> o_name x = fileName_of user_id aid d f)
                    (objects (db w)))"
    show "snd H = [Toast_success ''Application submitted successfully!'', Navigate ''/'']"
      unfolding H_def
    proof (rule handleSubmit_succeeds [OF assms])
      show "True \<notin> set (faults w)" using c by (rule conjunct1)
      show "user_id \<in> set (map au_id (users (db w)))" using c by blast
      show "s_id svc \<in> set (map s_id (services (db w)))" using c by blast
      show "inj (uuid_gen w)" using c by blast
      show "\<forall>k\<ge>uuid_ctr w.
              uuid_gen w k \<notin> set (map a_id (applications (db w)))
              \<and> uuid_gen w k \<notin> set (map d_id (documents (db w)))
              \<and> uuid_gen w k \<notin> set (map pay_id (payments (db w)))" using c by blast
      show "CHR ''/'' \<notin> set user_id" using c by blast
      show "distinct (map fst files)" using c by blast
      show "\<forall>(d, f) \<in> set files.
              \<not> list_ex (\<lambda>x. o_bucket_id x = ''application-documents''
                               \<and> o_name x = fileName_of user_id (uuid_gen w (uuid_ctr w)) d f)
                    (objects (db w))" using c unfolding aid_def by blast
    qed
  qed
  from cover main succeeds show ?thesis
    unfolding Let_def H_def reqs_def aid_def by (intro conjI)
qed

lemma example_files_complete:
  "\<forall>doc \<in> set (s_required_documents example_service). map_of example_files doc \<noteq> None"
  by (simp add: example_service_def example_files_def)

theorem handleSubmit_writes_in_order_witness:
  "snd (handleSubmit example_world (Some ''c1'') example_getPublicUrl 7 (Some example_service)
      example_files)
     = [Toast_success ''Application submitted successfully!'', Navigate ''/'']
   \<and> trace (fst (handleSubmit example_world (Some ''c1'') example_getPublicUrl 7
        (Some example_service) example_files))
     = [(Auth_get_user, True),
        (Insert_application
           \<lparr>ai_citizen_id = ''c1'', ai_service_id = ''s1'', ai_status = ''pending''\<rparr>, True),
        (Storage_upload ''application-documents'' ''c1/n/D1.pdf''
           \<lparr>f_name = ''a.pdf'', f_bytes = [1, 2]\<rparr>, True),
        (Insert_document
           \<lparr>di_application_id = ''n'', di_file_name = ''a.pdf'',
            di_file_url = ''https://x/c1/n/D1.pdf'', di_doc_type = ''D1''\<rparr>, True),
        (Storage_upload ''application-documents'' ''c1/n/D2.gz''
           \<lparr>f_name = ''b.tar.gz'', f_bytes = [3]\<rparr>, True),
        (Insert_document
           \<lparr>di_application_id = ''n'', di_file_name = ''b.tar.gz'',
            di_file_url = ''https://x/c1/n/D2.gz'', di_doc_type = ''D2''\<rparr>, True),
        (Insert_payment
           \<lparr>pi_application_id = ''n'', pi_amount = 5000, pi_status = ''completed'',
            pi_payment_method = Some ''mock'', pi_paid_at = Some 7\<rparr>, True)]
   \<and> map (\<lambda>a. (a_id a, a_citizen_id a, a_status a))
        (applications (db (fst (handleSubmit example_world (Some ''c1'') example_getPublicUrl 7
           (Some example_service) example_files))))
     = [(''a1'', ''c1'', Pending), (''a2'', ''c1'', Approved), (''a3'', ''c2'', Under_review),
        (''a4'', ''c2'', Rejected), (''n'', ''c1'', Pending)]
   \<and> map (\<lambda>d. (d_application_id d, d_doc_type d, d_file_name d, d_file_url d))
        (documents (db (fst (handleSubmit example_world (Some ''c1'') example_getPublicUrl 7
           (Some example_service) example_files))))
     = [(''n'', ''D1'', ''a.pdf'', ''https://x/c1/n/D1.pdf''),
        (''n'', ''D2'', ''b.tar.gz'', ''https://x/c1/n/D2.gz'')]
   \<and> objects (db (fst (handleSubmit example_world (Some ''c1'') example_getPublicUrl 7
        (Some example_service) example_files)))
     = [\<lparr>o_bucket_id = ''application-documents'', o_name = ''c1/n/D1.pdf'',
         o_file = \<lparr>f_name = ''a.pdf'', f_bytes = [1, 2]\<rparr>\<rparr>,
        \<lparr>o_bucket_id = ''application-documents'', o_name = ''c1/n/D2.gz'',
         o_file = \<lparr>f_name = ''b.tar.gz'', f_bytes = [3]\<rparr>\<rparr>]
   \<and> map (\<lambda>p. (pay_application_id p, pay_amount p, pay_status p))
        (payments (db (fst (handleSubmit example_world (Some ''c1'') example_getPublicUrl 7
           (Some example_service) example_files))))
     = [(''n'', 5000, Payment_completed)]"
proof -
  have w: "trace example_world = []" "uuid_gen example_world (uuid_ctr example_world) = ''n''"
    "documents (db example_world) = []" "payments (db example_world) = []"
    "objects (db example_world) = []"
    "map (\<lambda>a. (a_id a, a_citizen_id a, a_status a)) (applications (db example_world))
       = [(''a1'', ''c1'', Pending), (''a2'', ''c1'', Approved), (''a3'', ''c2'', Under_review),
          (''a4'', ''c2'', Rejected)]"
    by (simp_all add: example_world_def example_db_def example_application_def)
  have r: "submission_requests example_getPublicUrl 7 ''c1'' ''n'' example_service example_files
     = [Auth_get_user,
        Insert_application
           \<lparr>ai_citizen_id = ''c1'', ai_service_id = ''s1'', ai_status = ''pending''\<rparr>,
        Storage_upload ''application-documents'' ''c1/n/D1.pdf''
           \<lparr>f_name = ''a.pdf'', f_bytes = [1, 2]\<rparr>,
        Insert_document
           \<lparr>di_application_id = ''n'', di_file_name = ''a.pdf'',
            di_file_url = ''https://x/c1/n/D1.pdf'', di_doc_type = ''D1''\<rparr>,
        Storage_upload ''application-documents'' ''c1/n/D2.gz''
           \<lparr>f_name = ''b.tar.gz'', f_bytes = [3]\<rparr>,
        Insert_document
           \<lparr>di_application_id = ''n'', di_file_name = ''b.tar.gz'',
            di_file_url = ''https://x/c1/n/D2.gz'', di_doc_type = ''D2''\<rparr>,
        Insert_payment
           \<lparr>pi_application_id = ''n'', pi_amount = 5000, pi_status = ''completed'',
            pi_payment_method = Some ''mock'', pi_paid_at = Some 7\<rparr>]"
    by (simp add: submission_requests_def document_requests_def fileName_of_def document_of_def
        example_files_def example_service_def example_getPublicUrl_def)
  have f: "map (\<lambda>(docType, f). (''n'', docType, f_name f,
              example_getPublicUrl (fileName_of ''c1'' ''n'' docType f))) example_files
     = [(''n'', ''D1'', ''a.pdf'', ''https://x/c1/n/D1.pdf''),
        (''n'', ''D2'', ''b.tar.gz'', ''https://x/c1/n/D2.gz'')]"
    by (simp add: fileName_of_def example_files_def example_getPublicUrl_def)
  have o: "map (\<lambda>(docType, f). \<lparr>o_bucket_id = ''application-documents'',
              o_name = fileName_of ''c1'' ''n'' docType f, o_file = f\<rparr>) example_files
     = [\<lparr>o_bucket_id = ''application-documents'', o_name = ''c1/n/D1.pdf'',
         o_file = \<lparr>f_name = ''a.pdf'', f_bytes = [1, 2]\<rparr>\<rparr>,
        \<lparr>o_bucket_id = ''application-documents'', o_name = ''c1/n/D2.gz'',
         o_file = \<lparr>f_name = ''b.tar.gz'', f_bytes = [3]\<rparr>\<rparr>]"
    by (simp add: fileName_of_def example_files_def)
  have s: "s_id example_service = ''s1''" "s_fee example_service = 5000"
    by (simp_all add: example_service_def)
  have gen: "uuid_gen example_world = (\<lambda>n. ''n'' @ replicate n CHR ''x'')"
    "uuid_ctr example_world = 0"
    by (simp_all add: example_world_def)
  have inj: "inj (uuid_gen example_world)"
    unfolding gen by (rule injI) (auto dest: arg_cong [where f = length])
  have accepted: "True \<notin> set (faults example_world)
       \<and> ''c1'' \<in> set (map au_id (users (db example_world)))
       \<and> s_id example_service \<in> set (map s_id (services (db example_world)))
       \<and> inj (uuid_gen example_world)
       \<and> (\<forall>k\<ge>uuid_ctr example_world.
              uuid_gen example_world k \<notin> set (map a_id (applications (db example_world)))
              \<and> uuid_gen example_world k \<notin> set (map d_id (documents (db example_world)))
              \<and> uuid_gen example_world k \<notin> set (map pay_id (payments (db example_world))))
       \<and> CHR ''/'' \<notin> set ''c1''
       \<and> distinct (map fst example_files)
       \<and> (\<forall>(d, f) \<in> set example_files.
              \<not> list_ex (\<lambda>x. o_bucket_id x = ''application-documents''
                               \<and> o_name x = fileName_of ''c1''
                                     (uuid_gen example_world (uuid_ctr example_world)) d f)
                    (objects (db example_world)))"
    using inj
    by (simp add: gen example_world_def example_db_def example_application_def
        example_service_def example_builder_service_def example_files_def)
  note run = handleSubmit_writes_in_order [OF example_files_complete, where w = example_world
        and user_id = "''c1''" and getPublicUrl = example_getPublicUrl and now = 7,
        unfolded Let_def]
  have succeeded: "snd (handleSubmit example_world (Some ''c1'') example_getPublicUrl 7
      (Some example_service) example_files)
     = [Toast_success ''Application submitted successfully!'', Navigate ''/'']"
    using run [THEN conjunct2, THEN conjunct2] accepted by (rule mp)
  show ?thesis
    using run succeeded
    by (auto simp: w r f o s all_succeeded_def)
qed



text \<open>
  Why the labels without a file are taken not to be inherited names: run on a service
  whose required document is labelled \<^verbatim>\<open>constructor\<close>, with no file,
  \<^verbatim>\<open>files["constructor"]\<close> is truthy and \<open>handleSubmit\<close> finds nothing missing. The page
  does not run \<open>handleSubmit\<close> in that state: every file input of the form is
  \<^verbatim>\<open>required\<close>, so the form is not submitted while one is empty.
\<close>

lemma handleSubmit_inherited_label:
  "filter (\<lambda>doc. \<not> files_truthy [] doc) (s_required_documents example_builder_service) = []
   \<and> snd (handleSubmit example_world (Some ''c1'') example_getPublicUrl 7
        (Some example_builder_service) [])
     = [Toast_success ''Application submitted successfully!'', Navigate ''/'']"
  by code_simp

end
